theory Spec2Isabelle
  imports Main "HOL-Library.AList" "HOL-Library.Word"
begin

section \<open>Sidenotes: the notepad reducer\<close>

text \<open>
  The reducer of \<^verbatim>\<open>src/store/notepadReducer.js\<close> works on a notepad document:
  an object with the fields id, title, created, lastUpdate and notes. The reducer reads
  only the field id of a note. A slot of the notes array holds a note or, after a
  \<^verbatim>\<open>splice\<close> that inserted the result of an empty removal, the value
  \<^verbatim>\<open>undefined\<close>: a slot is a \<open>note_t option\<close>, with \<open>None\<close> for undefined.
\<close>

datatype blob = Blob (blob_type: string) (blob_bytes: "8 word list")

datatype file_type = Image | Video | Audio | File

record attachment =
  att_name :: string
  att_type :: file_type
  mimeType :: string
  att_size :: nat
  att_blob :: "blob option"

record note_t =
  note_id :: string
  note_title :: string
  content :: string
  accentColor :: string
  attachment :: "attachment option"
  collapsed :: bool

record notepad_t =
  notepad_id :: string
  title :: string
  created :: int
  lastUpdate :: int
  "notes" :: "note_t option list"

datatype action =
    SET_NOTEPAD notepad_t
  | UPDATE_TITLE string
  | ADD_NOTE note_t
  | DUPLICATE_NOTE string note_t
  | UPDATE_NOTE note_t
  | DELETE_NOTE string
  | MOVE_NOTE int int
  | UNKNOWN_ACTION

datatype error = TypeError | StorageError

subsection \<open>Array.prototype.splice\<close>

text \<open>
  \<^verbatim>\<open>xs.splice(start, deleteCount, ...items)\<close>: a negative start counts from the end
  and is clamped to 0, a start beyond the end is clamped to the length, and the delete
  count is clamped to what is left. The result is the removed elements and the array
  after the call.
\<close>

definition splice_start :: "int \<Rightarrow> nat \<Rightarrow> nat" where
  "splice_start start len =
     (if start < 0 then nat (max (int len + start) 0) else min (nat start) len)"

definition splice_arr :: "'a list \<Rightarrow> int \<Rightarrow> nat \<Rightarrow> 'a list \<Rightarrow> 'a list \<times> 'a list" where
  "splice_arr xs start deleteCount items =
     (let s = splice_start start (length xs);
          d = min deleteCount (length xs - s)
      in (take d (drop s xs), take s xs @ items @ drop (s + d) xs))"

text \<open>
  \<^verbatim>\<open>const [movedNote] = removed\<close>: the first removed element, or undefined when
  nothing was removed.
\<close>

definition first_or_undefined :: "'a option list \<Rightarrow> 'a option" where
  "first_or_undefined removed = (case removed of [] \<Rightarrow> None | x # _ \<Rightarrow> x)"

subsection \<open>The callbacks over the notes array\<close>

text \<open>
  Each callback reads \<^verbatim>\<open>n.id\<close>, which throws a TypeError on an undefined slot.
  \<^verbatim>\<open>findIndex\<close> stops at the first match, so a hole after the match is not read.
\<close>

fun findIndex_id :: "note_t option list \<Rightarrow> string \<Rightarrow> error + nat option" where
  "findIndex_id [] originalId = Inr None"
| "findIndex_id (None # ns) originalId = Inl TypeError"
| "findIndex_id (Some n # ns) originalId =
     (if note_id n = originalId then Inr (Some 0)
      else (case findIndex_id ns originalId of
              Inl e \<Rightarrow> Inl e
            | Inr None \<Rightarrow> Inr None
            | Inr (Some i) \<Rightarrow> Inr (Some (Suc i))))"

fun map_replace :: "note_t option list \<Rightarrow> note_t \<Rightarrow> error + note_t option list" where
  "map_replace [] payload = Inr []"
| "map_replace (None # ns) payload = Inl TypeError"
| "map_replace (Some n # ns) payload =
     (case map_replace ns payload of
        Inl e \<Rightarrow> Inl e
      | Inr ms \<Rightarrow> Inr (Some (if note_id n = note_id payload then payload else n) # ms))"

fun filter_not_id :: "note_t option list \<Rightarrow> string \<Rightarrow> error + note_t option list" where
  "filter_not_id [] payload = Inr []"
| "filter_not_id (None # ns) payload = Inl TypeError"
| "filter_not_id (Some n # ns) payload =
     (case filter_not_id ns payload of
        Inl e \<Rightarrow> Inl e
      | Inr ms \<Rightarrow> Inr (if note_id n \<noteq> payload then Some n # ms else ms))"

subsection \<open>notepadReducer\<close>

text \<open>
  The first argument is the reading of \<^verbatim>\<open>Date.now()\<close> taken on entry. The last
  constructor of \<open>action\<close> is any action type that the switch does not list.
\<close>

fun notepadReducer :: "int \<Rightarrow> notepad_t \<Rightarrow> action \<Rightarrow> error + notepad_t" where
  "notepadReducer timestamp state (SET_NOTEPAD payload) = Inr payload"
| "notepadReducer timestamp state (UPDATE_TITLE payload) =
     Inr (state\<lparr>title := payload, lastUpdate := timestamp\<rparr>)"
| "notepadReducer timestamp state (ADD_NOTE payload) =
     Inr (state\<lparr>lastUpdate := timestamp, notes := notes state @ [Some payload]\<rparr>)"
| "notepadReducer timestamp state (DUPLICATE_NOTE originalId newNote) =
     (case findIndex_id (notes state) originalId of
        Inl e \<Rightarrow> Inl e
      | Inr None \<Rightarrow> Inr state
      | Inr (Some index) \<Rightarrow>
          Inr (state\<lparr>lastUpdate := timestamp,
                     notes := snd (splice_arr (notes state) (int index + 1) 0 [Some newNote])\<rparr>))"
| "notepadReducer timestamp state (UPDATE_NOTE payload) =
     (case map_replace (notes state) payload of
        Inl e \<Rightarrow> Inl e
      | Inr ns \<Rightarrow> Inr (state\<lparr>lastUpdate := timestamp, notes := ns\<rparr>))"
| "notepadReducer timestamp state (DELETE_NOTE payload) =
     (case filter_not_id (notes state) payload of
        Inl e \<Rightarrow> Inl e
      | Inr ns \<Rightarrow> Inr (state\<lparr>lastUpdate := timestamp, notes := ns\<rparr>))"
| "notepadReducer timestamp state (MOVE_NOTE oldIndex newIndex) =
     (let from = oldIndex - 1;
          to = newIndex - 1
      in if to < 0 \<or> to \<ge> int (length (notes state)) then Inr state
         else
           (let (removed, notes1) = splice_arr (notes state) from 1 [];
                movedNote = first_or_undefined removed;
                (_, notes2) = splice_arr notes1 to 0 [movedNote]
            in Inr (state\<lparr>lastUpdate := timestamp, notes := notes2\<rparr>)))"
| "notepadReducer timestamp state UNKNOWN_ACTION = Inr state"

text \<open>
  A run of the reducer over dispatched commands, each with the clock reading of its call;
  an exception ends the run.
\<close>

fun run :: "notepad_t \<Rightarrow> (int \<times> action) list \<Rightarrow> error + notepad_t" where
  "run state [] = Inr state"
| "run state ((timestamp, a) # cmds) =
     (case notepadReducer timestamp state a of
        Inl e \<Rightarrow> Inl e
      | Inr state' \<Rightarrow> run state' cmds)"

text \<open>
  The branches of the reducer that return the state it was given: a duplication whose
  original is not found, a move whose target is out of bounds, and an unlisted action.
\<close>

fun no_op :: "notepad_t \<Rightarrow> action \<Rightarrow> bool" where
  "no_op state (DUPLICATE_NOTE originalId newNote) =
     (findIndex_id (notes state) originalId = Inr None)"
| "no_op state (MOVE_NOTE oldIndex newIndex) =
     (newIndex < 1 \<or> newIndex > int (length (notes state)))"
| "no_op state UNKNOWN_ACTION = True"
| "no_op state _ = False"

fun is_SET_NOTEPAD :: "action \<Rightarrow> bool" where
  "is_SET_NOTEPAD (SET_NOTEPAD payload) = True"
| "is_SET_NOTEPAD _ = False"

text \<open>
  The timestamp of the last command of a run that was not a no-op, or the given value
  when there is none: the value that the specification gives to lastUpdate after a run
  without SET_NOTEPAD.
\<close>

fun last_stamp :: "int \<Rightarrow> notepad_t \<Rightarrow> (int \<times> action) list \<Rightarrow> int" where
  "last_stamp acc state [] = acc"
| "last_stamp acc state ((timestamp, a) # cmds) =
     (case notepadReducer timestamp state a of
        Inl e \<Rightarrow> acc
      | Inr state' \<Rightarrow> last_stamp (if no_op state a then acc else timestamp) state' cmds)"

definition doc0 :: notepad_t where
  "doc0 = \<lparr>notepad_id = ''notepad-1'', title = ''New notepad'', created = 0,
           lastUpdate = 0, notes = []\<rparr>"

definition note_of :: "string \<Rightarrow> note_t" where
  "note_of i = \<lparr>note_id = i, note_title = ''New note'', content = [], accentColor = [],
                attachment = None, collapsed = False\<rparr>"

definition doc3 :: notepad_t where
  "doc3 = doc0\<lparr>notes := [Some (note_of ''a''), Some (note_of ''b''), Some (note_of ''c'')]\<rparr>"

section \<open>Sidenotes: import, restore and the codec\<close>

subsection \<open>JavaScript values\<close>

text \<open>
  The import and restore paths work on the result of \<^verbatim>\<open>JSON.parse\<close>, a value of
  unknown shape, and put binary handles into it. An object is the list of its own
  properties in enumeration order. Numbers are the integers (a fraction in a file is
  outside this model; the code reads a number only for its truthiness and as a property
  key).
\<close>

datatype jsval =
    JUndefined
  | JNull
  | JBool bool
  | JNum int
  | JStr string
  | JBlob blob
  | JArr "jsval list"
  | JObj "(string \<times> jsval) list"

type_synonym obj = "(string \<times> jsval) list"

fun truthy :: "jsval \<Rightarrow> bool" where
  "truthy JUndefined = False"
| "truthy JNull = False"
| "truthy (JBool b) = b"
| "truthy (JNum n) = (n \<noteq> 0)"
| "truthy (JStr s) = (s \<noteq> [])"
| "truthy (JBlob b) = True"
| "truthy (JArr xs) = True"
| "truthy (JObj fs) = True"

text \<open>\<^verbatim>\<open>a || b\<close>\<close>

definition js_or :: "jsval \<Rightarrow> jsval \<Rightarrow> jsval" where
  "js_or a b = (if truthy a then a else b)"

text \<open>An own property of an object; undefined when there is none.\<close>

definition get_own :: "obj \<Rightarrow> string \<Rightarrow> jsval" where
  "get_own fs k = (case map_of fs k of None \<Rightarrow> JUndefined | Some v \<Rightarrow> v)"

text \<open>
  \<^verbatim>\<open>v?.k\<close>, and \<^verbatim>\<open>v.k\<close> where \<open>v\<close> is known not to be null or undefined,
  for the names the code reads (id, notes, attachment, blob, title, content, accentColor,
  created, lastUpdate): none of them is an index, \<^verbatim>\<open>length\<close>, or a property of
  a prototype, so only an object has them.
\<close>

fun get :: "jsval \<Rightarrow> string \<Rightarrow> jsval" where
  "get (JObj fs) k = get_own fs k"
| "get v k = JUndefined"

text \<open>\<^verbatim>\<open>v.k\<close>: reading a property of null or undefined throws.\<close>

fun read_prop :: "jsval \<Rightarrow> string \<Rightarrow> error + jsval" where
  "read_prop JUndefined k = Inl TypeError"
| "read_prop JNull k = Inl TypeError"
| "read_prop v k = Inr (get v k)"

fun isArray :: "jsval \<Rightarrow> bool" where
  "isArray (JArr xs) = True"
| "isArray v = False"

fun is_string :: "jsval \<Rightarrow> bool" where
  "is_string (JStr s) = True"
| "is_string v = False"

text \<open>\<^verbatim>\<open>typeof v === 'object'\<close>\<close>

fun typeof_object :: "jsval \<Rightarrow> bool" where
  "typeof_object JNull = True"
| "typeof_object (JBlob b) = True"
| "typeof_object (JArr xs) = True"
| "typeof_object (JObj fs) = True"
| "typeof_object v = False"

subsection \<open>Numbers and property keys as strings\<close>

definition digit :: "nat \<Rightarrow> char" where
  "digit d = ''0123456789'' ! d"

fun show_nat :: "nat \<Rightarrow> string" where
  "show_nat n = (if n < 10 then [digit n] else show_nat (n div 10) @ [digit (n mod 10)])"

declare show_nat.simps [simp del]

definition show_int :: "int \<Rightarrow> string" where
  "show_int i = (if i < 0 then CHR ''-'' # show_nat (nat (- i)) else show_nat (nat i))"

fun join_with :: "string \<Rightarrow> string list \<Rightarrow> string" where
  "join_with sep [] = []"
| "join_with sep [s] = s"
| "join_with sep (s # t # ss) = s @ sep @ join_with sep (t # ss)"

text \<open>
  The own enumerable properties that \<^verbatim>\<open>{...v}\<close> copies and that
  \<^verbatim>\<open>Object.keys(v)\<close> lists: the properties of an object, the elements of an array
  and the characters of a string under their indices, nothing otherwise.
\<close>

fun spread :: "jsval \<Rightarrow> obj" where
  "spread (JObj fs) = fs"
| "spread (JArr xs) = zip (map show_nat [0..<length xs]) xs"
| "spread (JStr s) = zip (map show_nat [0..<length s]) (map (\<lambda>c. JStr [c]) s)"
| "spread v = []"

text \<open>
  \<^verbatim>\<open>{...o, k: v}\<close> and \<^verbatim>\<open>o[k] = v\<close>: a property that exists keeps its place,
  a new one goes to the end.
\<close>

definition set_prop :: "string \<Rightarrow> jsval \<Rightarrow> obj \<Rightarrow> obj" where
  "set_prop k v fs = AList.update k v fs"

subsection \<open>The environment\<close>

text \<open>
  What the code takes from the platform. \<open>fetch_blob\<close> is
  \<^verbatim>\<open>fetch(url).then(r => r.blob())\<close>, with \<open>None\<close> when it rejects;
  \<open>readAsDataURL\<close> is the result of a \<^verbatim>\<open>FileReader\<close>, with \<open>None\<close> when the
  reader reports an error. The clock and the random source are read at several places;
  each place has its own reading. \<open>exponent_notation\<close> is \<^verbatim>\<open>String(n)\<close> for a
  number of magnitude \<open>10\<^sup>2\<^sup>1\<close> or more: the shortest digits that read back as the
  number, with an exponent. \<open>storage_unavailable\<close> says that opening the database
  fails, so that every operation on it rejects.
\<close>

datatype site = Created string | LastUpdate string | NoteId string nat | NotepadId

record env =
  fetch_blob :: "string \<Rightarrow> blob option"
  readAsDataURL :: "blob \<Rightarrow> string option"
  date_now :: "site \<Rightarrow> int"
  math_random :: "site \<Rightarrow> string"
  exponent_notation :: "int \<Rightarrow> string"
  storage_unavailable :: bool

text \<open>
  \<^verbatim>\<open>generateID(prefix)\<close>: the prefix, the clock and the random component
  (\<^verbatim>\<open>Math.random().toString(36).substr(2, 9)\<close>), joined by dashes.
\<close>

definition generateID :: "string \<Rightarrow> int \<Rightarrow> string \<Rightarrow> string" where
  "generateID prefix now rnd = prefix @ ''-'' @ show_int now @ ''-'' @ rnd"

definition generateID_at :: "env \<Rightarrow> string \<Rightarrow> site \<Rightarrow> string" where
  "generateID_at e prefix s = generateID prefix (date_now e s) (math_random e s)"

subsection \<open>Property keys\<close>

text \<open>
  The string that a value becomes as a computed property key (\<^verbatim>\<open>o[v]\<close>,
  \<^verbatim>\<open>{[v]: x}\<close>): an array joins its elements with commas, null and undefined
  elements giving the empty string. A number below \<open>10\<^sup>2\<^sup>1\<close> in magnitude prints in
  decimal digits, a larger one in the exponent notation of the platform.
\<close>

fun to_property_key :: "env \<Rightarrow> jsval \<Rightarrow> string" where
  "to_property_key e JUndefined = ''undefined''"
| "to_property_key e JNull = ''null''"
| "to_property_key e (JBool b) = (if b then ''true'' else ''false'')"
| "to_property_key e (JNum n) =
     (if \<bar>n\<bar> < 10 ^ 21 then show_int n else exponent_notation e n)"
| "to_property_key e (JStr s) = s"
| "to_property_key e (JBlob b) = ''[object Blob]''"
| "to_property_key e (JArr xs) =
     join_with '','' (map (\<lambda>x. case x of JUndefined \<Rightarrow> [] | JNull \<Rightarrow> []
                                  | _ \<Rightarrow> to_property_key e x) xs)"
| "to_property_key e (JObj fs) = ''[object Object]''"

subsection \<open>The codec\<close>

definition startsWith :: "string \<Rightarrow> string \<Rightarrow> bool" where
  "startsWith s p = (take (length p) s = p)"

text \<open>
  \<^verbatim>\<open>base64ToBlob\<close> catches every exception, so it always resolves: to null for a
  value that is not a non-empty string, for a string that does not start with
  \<^verbatim>\<open>data:\<close>, and when the fetch fails.
\<close>

definition base64ToBlob :: "env \<Rightarrow> jsval \<Rightarrow> jsval" where
  "base64ToBlob e base64Data =
     (case base64Data of
        JStr s \<Rightarrow>
          if s = [] then JNull
          else if \<not> startsWith s ''data:'' then JNull
          else (case fetch_blob e s of None \<Rightarrow> JNull | Some b \<Rightarrow> JBlob b)
      | _ \<Rightarrow> JNull)"

datatype reject = Thrown error | ReadFailed

text \<open>\<^verbatim>\<open>blobToBase64\<close>: null for a value that is not a Blob.\<close>

definition blobToBase64 :: "env \<Rightarrow> jsval \<Rightarrow> reject + jsval" where
  "blobToBase64 e v =
     (case v of
        JBlob b \<Rightarrow> (case readAsDataURL e b of None \<Rightarrow> Inl ReadFailed | Some s \<Rightarrow> Inr (JStr s))
      | _ \<Rightarrow> Inr JNull)"

text \<open>
  \<^verbatim>\<open>Promise.all\<close> over the promises of an async callback: the list of the results,
  or a rejection. A callback that throws before its first \<^verbatim>\<open>await\<close> has rejected
  before any reader reports, so a thrown error comes first.
\<close>

fun all_results :: "(reject + 'a) list \<Rightarrow> reject + 'a list" where
  "all_results [] = Inr []"
| "all_results (Inl r # ps) =
     (case r of
        Thrown e \<Rightarrow> Inl r
      | ReadFailed \<Rightarrow> (case all_results ps of Inl (Thrown e) \<Rightarrow> Inl (Thrown e) | _ \<Rightarrow> Inl r))"
| "all_results (Inr x # ps) = (case all_results ps of Inl r \<Rightarrow> Inl r | Inr xs \<Rightarrow> Inr (x # xs))"

text \<open>One note of \<^verbatim>\<open>serializeNotes\<close>; the converter is the function it is given.\<close>

definition serialize_note :: "(jsval \<Rightarrow> reject + jsval) \<Rightarrow> jsval \<Rightarrow> reject + jsval" where
  "serialize_note convert note =
     (case read_prop note ''attachment'' of
        Inl e \<Rightarrow> Inl (Thrown e)
      | Inr att \<Rightarrow>
          (case get att ''blob'' of
             JBlob b \<Rightarrow>
               (case convert (JBlob b) of
                  Inl r \<Rightarrow> Inl r
                | Inr s \<Rightarrow>
                    Inr (JObj (set_prop ''attachment'' (JObj (set_prop ''blob'' s (spread att)))
                                 (spread note))))
           | _ \<Rightarrow> Inr note))"

definition serializeNotes :: "jsval \<Rightarrow> (jsval \<Rightarrow> reject + jsval) \<Rightarrow> reject + jsval" where
  "serializeNotes ns convert =
     (case ns of
        JArr xs \<Rightarrow> map_sum id JArr (all_results (map (serialize_note convert) xs))
      | _ \<Rightarrow> Inr (JArr []))"

text \<open>One note of \<^verbatim>\<open>hydrateNotes\<close>; the converter it is given never rejects.\<close>

definition hydrate_note :: "(jsval \<Rightarrow> jsval) \<Rightarrow> jsval \<Rightarrow> reject + jsval" where
  "hydrate_note convert note =
     (case read_prop note ''attachment'' of
        Inl e \<Rightarrow> Inl (Thrown e)
      | Inr att \<Rightarrow>
          (case get att ''blob'' of
             JStr s \<Rightarrow>
               Inr (JObj (set_prop ''attachment''
                            (JObj (set_prop ''blob'' (convert (JStr s)) (spread att)))
                            (spread note)))
           | _ \<Rightarrow> Inr note))"

definition hydrateNotes :: "jsval \<Rightarrow> (jsval \<Rightarrow> jsval) \<Rightarrow> reject + jsval" where
  "hydrateNotes ns convert =
     (case ns of
        JArr xs \<Rightarrow> map_sum id JArr (all_results (map (hydrate_note convert) xs))
      | _ \<Rightarrow> Inr (JArr []))"

subsection \<open>The local store and the rest of the world\<close>

text \<open>
  The object store holds records under string keys (\<^verbatim>\<open>store.put(value, id)\<close>); every
  record that the code writes is an object. The order of the list stands for the order in
  which the store enumerates its records; the properties below go through \<open>map_of\<close> and
  do not depend on it. \<open>db_calls\<close> is the sequence of calls made on the database,
  \<open>alerts\<close> the messages shown, \<open>opened\<close> the notepads handed to
  \<^verbatim>\<open>onOpenNotepad\<close>.
\<close>

datatype db_call = DbGetAll | DbClear | DbBulkPut "(string \<times> obj) list"

record world =
  library :: "(string \<times> obj) list"
  db_calls :: "db_call list"
  alerts :: "string list"
  isProcessing :: bool
  reload_scheduled :: bool
  opened :: "obj list"

definition alert :: "string \<Rightarrow> world \<Rightarrow> world" where
  "alert msg w = w\<lparr>alerts := alerts w @ [msg]\<rparr>"

definition setIsProcessing :: "bool \<Rightarrow> world \<Rightarrow> world" where
  "setIsProcessing b w = w\<lparr>isProcessing := b\<rparr>"

text \<open>\<^verbatim>\<open>bulkPut(data)\<close>: one put for each entry of the given object.\<close>

definition bulkPut :: "(string \<times> obj) list \<Rightarrow> (string \<times> obj) list \<Rightarrow> (string \<times> obj) list" where
  "bulkPut data lib = fold (\<lambda>(id', v) l. AList.update id' v l) data lib"

text \<open>
  What a plain object inherits: a read of one of these names on an object that has no
  such property of its own gives a function or the prototype, which are truthy.
\<close>

definition prototype_keys :: "string list" where
  "prototype_keys = [''__proto__'', ''constructor'', ''hasOwnProperty'', ''isPrototypeOf'',
     ''propertyIsEnumerable'', ''toLocaleString'', ''toString'', ''valueOf'',
     ''__defineGetter__'', ''__defineSetter__'', ''__lookupGetter__'', ''__lookupSetter__'']"

text \<open>
  \<^verbatim>\<open>getAll()\<close> builds an object from the records, \<^verbatim>\<open>map[item.id] = item\<close>.
  An assignment to \<^verbatim>\<open>__proto__\<close> sets the prototype of the object instead of a
  property. The result is the own properties and the prototype that was set, if any.
\<close>

definition getAll :: "env \<Rightarrow> (string \<times> obj) list \<Rightarrow> (string \<times> obj) list \<times> obj option" where
  "getAll e lib =
     fold (\<lambda>item (m, p).
             let k = to_property_key e (get_own item ''id'')
             in if k = ''__proto__'' then (m, Some item) else (AList.update k item m, p))
          (map snd lib) ([], None)"

text \<open>Whether \<^verbatim>\<open>currentLibrary[k]\<close> is truthy.\<close>

definition lookup_truthy :: "(string \<times> obj) list \<times> obj option \<Rightarrow> string \<Rightarrow> bool" where
  "lookup_truthy view k =
     (case map_of (fst view) k of
        Some item \<Rightarrow> True
      | None \<Rightarrow>
          (case snd view of
             None \<Rightarrow> k \<in> set prototype_keys
           | Some item \<Rightarrow>
               (case map_of item k of
                  Some v \<Rightarrow> truthy v
                | None \<Rightarrow> k \<in> set prototype_keys)))"

subsection \<open>dataFallbackMode\<close>

definition elements :: "jsval \<Rightarrow> jsval list" where
  "elements v = (case v of JArr xs \<Rightarrow> xs | _ \<Rightarrow> [])"

text \<open>
  The callback of \<^verbatim>\<open>notepad.notes.map\<close>, for note \<open>i\<close> of the notepad under key
  \<open>k\<close>. The copy of the note is shallow: the assignment to
  \<^verbatim>\<open>noteCopy.attachment.blob\<close> changes the attachment object that the result then
  refers to.
\<close>

definition process_note :: "env \<Rightarrow> string \<Rightarrow> nat \<Rightarrow> jsval \<Rightarrow> jsval" where
  "process_note e k i note =
     (let noteCopy = spread note;
          att = get_own noteCopy ''attachment'';
          b = get att ''blob'';
          att' = (if truthy b \<and> is_string b
                  then JObj (set_prop ''blob'' (base64ToBlob e b) (spread att))
                  else att)
      in JObj [(''id'', js_or (get_own noteCopy ''id'') (JStr (generateID_at e ''note'' (NoteId k i)))),
               (''title'', js_or (get_own noteCopy ''title'') (JStr [])),
               (''content'', js_or (get_own noteCopy ''content'') (JStr [])),
               (''accentColor'', js_or (get_own noteCopy ''accentColor'') (JStr [])),
               (''attachment'', js_or att' JNull)])"

text \<open>
  The safeguard \<^verbatim>\<open>notepad && notepad.id && Array.isArray(notepad.notes)\<close> and the
  object stored for a notepad that passes it.
\<close>

definition keeps :: "jsval \<Rightarrow> bool" where
  "keeps notepad = (truthy notepad \<and> truthy (get notepad ''id'') \<and> isArray (get notepad ''notes''))"

definition validated_notepad :: "env \<Rightarrow> string \<Rightarrow> jsval \<Rightarrow> obj" where
  "validated_notepad e k notepad =
     [(''id'', get notepad ''id''),
      (''title'', js_or (get notepad ''title'') (JStr ''Untitled Notepad'')),
      (''created'', js_or (get notepad ''created'') (JNum (date_now e (Created k)))),
      (''lastUpdate'', js_or (get notepad ''lastUpdate'') (JNum (date_now e (LastUpdate k)))),
      (''notes'', JArr (map (\<lambda>(i, n). process_note e k i n)
                          (enumerate 0 (elements (get notepad ''notes'')))))]"

text \<open>
  \<^verbatim>\<open>validatedData[id] = ...\<close> on an object that started as \<^verbatim>\<open>{}\<close>: the key
  \<^verbatim>\<open>__proto__\<close> sets the prototype and adds no property.
\<close>

definition assign :: "string \<Rightarrow> obj \<Rightarrow> (string \<times> obj) list \<Rightarrow> (string \<times> obj) list" where
  "assign k v m = (if k = ''__proto__'' then m else AList.update k v m)"

text \<open>
  The loop over \<^verbatim>\<open>Object.keys(newData)\<close>. The callbacks finish in an order that
  depends on their awaits; what is stored under a key depends on the key alone, so the
  mapping is the same in any order, and the model takes the keys in their own order.
\<close>

definition validate_backup :: "env \<Rightarrow> jsval \<Rightarrow> (string \<times> obj) list" where
  "validate_backup e newData =
     fold (\<lambda>k validatedData.
             let notepad = get_own (spread newData) k
             in if keeps notepad then assign k (validated_notepad e k notepad) validatedData
                else validatedData)
          (map fst (spread newData)) []"

definition isSingleNotepad :: "jsval \<Rightarrow> bool" where
  "isSingleNotepad newData =
     (truthy newData \<and> truthy (get newData ''notes'') \<and> isArray (get newData ''notes''))"

definition isBackupCollection :: "jsval \<Rightarrow> bool" where
  "isBackupCollection newData =
     (truthy newData \<and> \<not> isSingleNotepad newData \<and> typeof_object newData)"

definition validatedData_of :: "env \<Rightarrow> jsval \<Rightarrow> (string \<times> obj) list" where
  "validatedData_of e newData =
     (if isBackupCollection newData then validate_backup e newData else [])"

definition msg_single_notepad :: string where
  "msg_single_notepad =
     ''This is a single notepad file. Please use the \"Import\" button instead of \"Restore\".''"

definition msg_no_valid_data :: string where
  "msg_no_valid_data = ''No valid backup data found.''"

definition msg_invalid_format :: string where
  "msg_invalid_format = ''The file format is invalid.''"

text \<open>
  The callback gets the complete validated mapping; when it throws, the world it leaves
  behind stays and the catch block shows a message. Nothing else in the try block throws.
\<close>

definition dataFallbackMode ::
  "env \<Rightarrow> jsval \<Rightarrow> ((string \<times> obj) list \<Rightarrow> world \<Rightarrow> error option \<times> world) \<Rightarrow> world \<Rightarrow> world" where
  "dataFallbackMode e newData callbackAction w =
     (if isSingleNotepad newData then alert msg_single_notepad w
      else
        (let validatedData = validatedData_of e newData
         in if validatedData \<noteq> []
            then (case callbackAction validatedData w of
                    (None, w') \<Rightarrow> w'
                  | (Some err, w') \<Rightarrow> alert msg_invalid_format w')
            else alert msg_no_valid_data w))"

subsection \<open>restoreFullLibrary\<close>

definition msg_restore_failed :: string where
  "msg_restore_failed = ''Restore failed: The file is corrupted or invalid.''"

text \<open>
  The callback that the restore action gives to \<^verbatim>\<open>dataFallbackMode\<close>: clear, then
  bulkPut, then the reload. When the database cannot be opened, clear rejects.
\<close>

definition restore_callback :: "env \<Rightarrow> (string \<times> obj) list \<Rightarrow> world \<Rightarrow> error option \<times> world" where
  "restore_callback e validatedData w =
     (if storage_unavailable e
      then (Some StorageError, w\<lparr>db_calls := db_calls w @ [DbClear]\<rparr>)
      else (None, w\<lparr>library := bulkPut validatedData [],
                      db_calls := db_calls w @ [DbClear, DbBulkPut validatedData],
                      reload_scheduled := True\<rparr>))"

text \<open>
  \<open>proceed\<close> is the answer to the confirmation dialog; \<open>upload\<close> is \<open>None\<close> when
  no file is picked, and otherwise the result of \<^verbatim>\<open>JSON.parse\<close> on the text of
  the file, \<open>None\<close> when it throws.
\<close>

definition restoreFullLibrary :: "env \<Rightarrow> bool \<Rightarrow> jsval option option \<Rightarrow> world \<Rightarrow> world" where
  "restoreFullLibrary e proceed upload w =
     (if \<not> proceed then w
      else
        (case upload of
           None \<Rightarrow> w
         | Some json \<Rightarrow>
             (let w1 = setIsProcessing True w;
                  w2 = (case json of
                          None \<Rightarrow> alert msg_restore_failed w1
                        | Some libraryData \<Rightarrow>
                            dataFallbackMode e libraryData (restore_callback e) w1)
              in setIsProcessing False w2)))"

subsection \<open>importSingleNotepad\<close>

definition msg_is_backup :: string where
  "msg_is_backup =
     ''This file appears to be a full backup. Please use the \"Restore\" button instead of \"Import\".''"

definition msg_import_failed :: string where
  "msg_import_failed = ''Import failed: Invalid file format.''"

text \<open>
  \<^verbatim>\<open>values.some((v) => v.notes)\<close>: the values are read in order up to the first one
  with a truthy \<^verbatim>\<open>notes\<close>; a null value met on the way throws.
\<close>

fun some_notes :: "jsval list \<Rightarrow> error + bool" where
  "some_notes [] = Inr False"
| "some_notes (v # vs) =
     (case read_prop v ''notes'' of
        Inl err \<Rightarrow> Inl err
      | Inr n \<Rightarrow> if truthy n then Inr True else some_notes vs)"

definition isBackup :: "jsval \<Rightarrow> error + bool" where
  "isBackup notepadData =
     (if truthy notepadData \<and> \<not> truthy (get notepadData ''notes'') \<and> typeof_object notepadData
      then some_notes (map snd (spread notepadData))
      else Inr False)"

datatype resolution = KeepBoth | Replace | Cancel

definition saveToDatabase :: "env \<Rightarrow> obj \<Rightarrow> world \<Rightarrow> world" where
  "saveToDatabase e target w =
     (let data = [(to_property_key e (get_own target ''id''), target)]
      in w\<lparr>library := bulkPut data (library w),
            db_calls := db_calls w @ [DbBulkPut data],
            opened := opened w @ [target],
            isProcessing := False\<rparr>)"

definition import_failed :: "world \<Rightarrow> world" where
  "import_failed w = alert msg_import_failed (setIsProcessing False w)"

text \<open>
  \<^verbatim>\<open>{ ...notepadData, notes: hydratedNotes }\<close>: the notepad that the import builds
  from the payload and its hydrated notes.
\<close>

definition imported_notepad :: "jsval \<Rightarrow> jsval \<Rightarrow> obj" where
  "imported_notepad notepadData hydratedNotes = set_prop ''notes'' hydratedNotes (spread notepadData)"

text \<open>
  The callback of the file picker. \<open>json\<close> is the result of \<^verbatim>\<open>JSON.parse\<close>,
  \<open>None\<close> when it throws; \<open>choice\<close> is the button pressed in the collision dialog,
  \<open>None\<close> when the dialog is dismissed.
\<close>

definition importSingleNotepad :: "env \<Rightarrow> jsval option \<Rightarrow> resolution option \<Rightarrow> world \<Rightarrow> world" where
  "importSingleNotepad e json choice w0 =
     (let w = setIsProcessing True w0
      in case json of
           None \<Rightarrow> import_failed w
         | Some notepadData \<Rightarrow>
             (case isBackup notepadData of
                Inl err \<Rightarrow> import_failed w
              | Inr True \<Rightarrow> setIsProcessing False (alert msg_is_backup w)
              | Inr False \<Rightarrow>
                  if \<not> truthy notepadData \<or> \<not> truthy (get notepadData ''notes'')
                  then import_failed w
                  else
                    (case hydrateNotes (get notepadData ''notes'') (base64ToBlob e) of
                       Inl r \<Rightarrow> import_failed w
                     | Inr hydratedNotes \<Rightarrow>
                         (let notepad = imported_notepad notepadData hydratedNotes;
                              w1 = w\<lparr>db_calls := db_calls w @ [DbGetAll]\<rparr>
                          in if storage_unavailable e then import_failed w1
                             else if lookup_truthy (getAll e (library w1))
                                       (to_property_key e (get_own notepad ''id''))
                             then
                               (let w2 = setIsProcessing False w1
                                in case choice of
                                     Some KeepBoth \<Rightarrow>
                                       saveToDatabase e
                                         (set_prop ''id'' (JStr (generateID_at e ''notepad'' NotepadId))
                                            notepad) w2
                                   | Some Replace \<Rightarrow> saveToDatabase e notepad w2
                                   | Some Cancel \<Rightarrow> setIsProcessing False w2
                                   | None \<Rightarrow> w2)
                             else saveToDatabase e notepad w1))))"

subsection \<open>What the specification says, in its own words\<close>

text \<open>
  The specification keeps a candidate of a backup when its \<^verbatim>\<open>id\<close> is present and its
  \<^verbatim>\<open>notes\<close> is an array.
\<close>

definition spec_keeps :: "jsval \<Rightarrow> bool" where
  "spec_keeps candidate =
     (''id'' \<in> set (map fst (spread candidate)) \<and> isArray (get candidate ''notes''))"

text \<open>
  The specification takes a payload for a backup given to the import when it has no
  top-level \<^verbatim>\<open>notes\<close> and each of its values contains a \<^verbatim>\<open>notes\<close> sequence.
\<close>

definition spec_is_backup :: "jsval \<Rightarrow> bool" where
  "spec_is_backup payload =
     (typeof_object payload \<and> payload \<noteq> JNull \<and>
      ''notes'' \<notin> set (map fst (spread payload)) \<and>
      list_all (\<lambda>v. isArray (get v ''notes'')) (map snd (spread payload)))"

subsection \<open>A concrete platform\<close>

text \<open>
  The data URLs of the platform are \<^verbatim>\<open>data:<type>;base64,<payload>\<close> with the
  Base64 of RFC 4648 over the bytes of the handle; the reader writes
  \<^verbatim>\<open>application/octet-stream\<close> for a handle without a type. The fetch drops a
  fragment (what follows a \<^verbatim>\<open>#\<close>), takes the type up to the first comma, and
  understands Base64 payloads only. The clock and the random source of the concrete
  environment give the same reading everywhere.
\<close>

definition b64_alphabet :: string where
  "b64_alphabet = ''ABCDEFGHIJKLMNOPQRSTUVWXYZabcdefghijklmnopqrstuvwxyz0123456789+/''"

definition b64_char :: "nat \<Rightarrow> char" where
  "b64_char n = b64_alphabet ! (n mod 64)"

fun base64_encode :: "nat list \<Rightarrow> string" where
  "base64_encode [] = []"
| "base64_encode [a] =
     [b64_char (a div 4), b64_char ((a mod 4) * 16), CHR ''='', CHR ''='']"
| "base64_encode [a, b] =
     [b64_char (a div 4), b64_char ((a mod 4) * 16 + b div 16), b64_char ((b mod 16) * 4),
      CHR ''='']"
| "base64_encode (a # b # c # rest) =
     [b64_char (a div 4), b64_char ((a mod 4) * 16 + b div 16),
      b64_char ((b mod 16) * 4 + c div 64), b64_char (c mod 64)] @ base64_encode rest"

fun index_of :: "'a \<Rightarrow> 'a list \<Rightarrow> nat option" where
  "index_of x [] = None"
| "index_of x (y # ys) = (if x = y then Some 0 else map_option Suc (index_of x ys))"

fun base64_decode :: "string \<Rightarrow> nat list option" where
  "base64_decode [] = Some []"
| "base64_decode (c1 # c2 # c3 # c4 # rest) =
     (case (index_of c1 b64_alphabet, index_of c2 b64_alphabet) of
        (Some i1, Some i2) \<Rightarrow>
          if c3 = CHR ''='' \<and> c4 = CHR ''='' \<and> rest = [] then Some [i1 * 4 + i2 div 16]
          else (case index_of c3 b64_alphabet of
                  None \<Rightarrow> None
                | Some i3 \<Rightarrow>
                    if c4 = CHR ''='' \<and> rest = []
                    then Some [i1 * 4 + i2 div 16, (i2 mod 16) * 16 + i3 div 4]
                    else (case (index_of c4 b64_alphabet, base64_decode rest) of
                            (Some i4, Some bs) \<Rightarrow>
                              Some ([i1 * 4 + i2 div 16, (i2 mod 16) * 16 + i3 div 4,
                                     (i3 mod 4) * 64 + i4] @ bs)
                          | _ \<Rightarrow> None))
      | _ \<Rightarrow> None)"
| "base64_decode cs = None"

definition url_media_type :: "blob \<Rightarrow> string" where
  "url_media_type b = (if blob_type b = [] then ''application/octet-stream'' else blob_type b)"

definition data_url :: "blob \<Rightarrow> string" where
  "data_url b =
     ''data:'' @ url_media_type b @ '';base64,'' @ base64_encode (map unat (blob_bytes b))"

definition fetch_data_url :: "string \<Rightarrow> blob option" where
  "fetch_data_url url =
     (let u = takeWhile (\<lambda>c. c \<noteq> CHR ''#'') url
      in if \<not> startsWith u ''data:'' then None
         else
           (let rest = drop 5 u;
                meta = takeWhile (\<lambda>c. c \<noteq> CHR '','') rest;
                payload = drop (Suc (length meta)) rest
            in if length rest \<le> length meta then None
               else if drop (length meta - 7) meta \<noteq> '';base64'' then None
               else map_option (\<lambda>bs. Blob (take (length meta - 7) meta) (map of_nat bs))
                      (base64_decode payload)))"

text \<open>
  The exponent notation of a number whose decimal digits, without the zeros at their end,
  are at most fifteen: these digits, a point after the first, and the exponent.
\<close>

definition exponent_digits :: "int \<Rightarrow> string" where
  "exponent_digits n =
     (let ds = show_nat (nat \<bar>n\<bar>);
          m = rev (dropWhile (\<lambda>c. c = CHR ''0'') (rev ds));
          mantissa = (if length m \<le> 1 then m else hd m # CHR ''.'' # tl m)
      in (if n < 0 then ''-'' else []) @ mantissa @ ''e+'' @ show_nat (length ds - 1))"

definition browser :: env where
  "browser = \<lparr>fetch_blob = fetch_data_url, readAsDataURL = (\<lambda>b. Some (data_url b)),
              date_now = (\<lambda>s. 1700), math_random = (\<lambda>s. ''k3j9x0q1z''),
              exponent_notation = exponent_digits, storage_unavailable = False\<rparr>"

definition world0 :: world where
  "world0 = \<lparr>library = [], db_calls = [], alerts = [], isProcessing = False,
             reload_scheduled = False, opened = []\<rparr>"

subsection \<open>Sample worlds and payloads\<close>

definition world1 :: world where
  "world1 = world0\<lparr>library := [(''old'', [(''id'', JStr ''old''), (''title'', JStr ''Kept''),
       (''created'', JNum 1), (''lastUpdate'', JNum 2), (''notes'', JArr [])])]\<rparr>"

definition payload_ab :: jsval where
  "payload_ab = JObj [(''a'', JObj [(''id'', JStr ''a''), (''notes'', JArr [])]),
                      (''b'', JObj [(''notes'', JArr [])])]"

definition payload_x :: jsval where
  "payload_x = JObj [(''x'', JObj [(''notes'', JStr ''not-an-array'')])]"

definition payload_collapsed :: jsval where
  "payload_collapsed =
     JObj [(''p'', JObj [(''id'', JStr ''p''), (''title'', JStr ''T''), (''created'', JNum 5),
                         (''lastUpdate'', JNum 6),
                         (''notes'', JArr [JObj [(''id'', JStr ''n1''), (''title'', JStr ''t''),
                                                 (''content'', JStr ''c''),
                                                 (''collapsed'', JBool True)]])])]"

definition restored_n1 :: jsval where
  "restored_n1 = JObj [(''id'', JStr ''n1''), (''title'', JStr ''t''), (''content'', JStr ''c''),
                       (''accentColor'', JStr []), (''attachment'', JNull)]"

definition restored_p :: obj where
  "restored_p = [(''id'', JStr ''p''), (''title'', JStr ''T''), (''created'', JNum 5),
                 (''lastUpdate'', JNum 6), (''notes'', JArr [restored_n1])]"

subsection \<open>Notes that the codec is applied to\<close>

definition non_nullish :: "jsval \<Rightarrow> bool" where
  "non_nullish v = (v \<noteq> JUndefined \<and> v \<noteq> JNull)"

text \<open>
  A platform follows the data URLs above for a handle when its reader gives the data URL
  of the handle and its fetch of this URL gives the bytes that the fetch above gives (the
  type that the fetch reports is left to the platform).
\<close>

definition conforms :: "env \<Rightarrow> blob \<Rightarrow> bool" where
  "conforms e b =
     (readAsDataURL e b = Some (data_url b) \<and>
      map_option blob_bytes (fetch_blob e (data_url b)) =
        map_option blob_bytes (fetch_data_url (data_url b)))"

text \<open>
  A note of a notepad in memory: it is not null, and the blob of its attachment, if it
  has one, is a binary handle and not a string. The type of the handle has no comma and
  no \<^verbatim>\<open>#\<close> (a data URL is cut at these), and the platform follows the data URLs
  for the handle.
\<close>

definition valid_note :: "env \<Rightarrow> jsval \<Rightarrow> bool" where
  "valid_note e n =
     (non_nullish n \<and>
      (case get (get n ''attachment'') ''blob'' of
         JBlob b \<Rightarrow>
           CHR '','' \<notin> set (blob_type b) \<and> CHR ''#'' \<notin> set (blob_type b) \<and> conforms e b
       | JStr s \<Rightarrow> False
       | _ \<Rightarrow> True))"

text \<open>
  Equality of notes up to the identity of the binary handle. Two handles are equal in
  content when they have the same bytes; two attachments, when they have the same
  properties in the same order with the same values, the blobs equal in content; two
  notes, when they have the same properties in the same order with the same values, the
  attachments equal in this sense.
\<close>

definition same_blob :: "jsval \<Rightarrow> jsval \<Rightarrow> bool" where
  "same_blob u v =
     (case u of
        JBlob a \<Rightarrow> (case v of JBlob b \<Rightarrow> blob_bytes a = blob_bytes b | _ \<Rightarrow> False)
      | _ \<Rightarrow> u = v)"

definition same_fields :: "string \<Rightarrow> (jsval \<Rightarrow> jsval \<Rightarrow> bool) \<Rightarrow> obj \<Rightarrow> obj \<Rightarrow> bool" where
  "same_fields k R fs gs =
     list_all2 (\<lambda>f g. fst f = fst g \<and> (if fst f = k then R (snd f) (snd g) else snd f = snd g))
       fs gs"

definition same_attachment :: "jsval \<Rightarrow> jsval \<Rightarrow> bool" where
  "same_attachment u v =
     (case u of
        JObj fs \<Rightarrow> (case v of JObj gs \<Rightarrow> same_fields ''blob'' same_blob fs gs | _ \<Rightarrow> False)
      | _ \<Rightarrow> u = v)"

definition content_equal :: "jsval \<Rightarrow> jsval \<Rightarrow> bool" where
  "content_equal z x =
     (case z of
        JObj fs \<Rightarrow>
          (case x of JObj gs \<Rightarrow> same_fields ''attachment'' same_attachment fs gs | _ \<Rightarrow> False)
      | _ \<Rightarrow> z = x)"

text \<open>
  The payload that \<^verbatim>\<open>shareSingleNotepad\<close> builds from a notepad and its serialized
  notes. The JSON text between the export and the import is not modelled.
\<close>

definition cleanPayload :: "jsval \<Rightarrow> jsval \<Rightarrow> jsval" where
  "cleanPayload notepad serializedNotes =
     JObj [(''id'', get notepad ''id''), (''title'', get notepad ''title''),
           (''created'', get notepad ''created''), (''lastUpdate'', get notepad ''lastUpdate''),
           (''notes'', serializedNotes)]"

definition png :: blob where
  "png = Blob ''image/png'' [137, 80, 78, 71, 13]"

definition note_png :: jsval where
  "note_png = JObj [(''id'', JStr ''n1''), (''title'', JStr ''Photo''), (''content'', JStr []),
                    (''accentColor'', JStr []),
                    (''attachment'', JObj [(''name'', JStr ''a.png''), (''type'', JStr ''image''),
                                           (''mimeType'', JStr ''image/png''), (''size'', JNum 5),
                                           (''blob'', JBlob png)]),
                    (''collapsed'', JBool False)]"

definition note_plain :: jsval where
  "note_plain = JObj [(''id'', JStr ''n2''), (''title'', JStr ''Text''), (''content'', JStr ''hi''),
                      (''accentColor'', JStr ''#fefbe6''), (''attachment'', JNull),
                      (''collapsed'', JBool True)]"

definition note_garbage :: jsval where
  "note_garbage = JObj [(''id'', JStr ''n3''), (''title'', JStr ''Broken''),
                        (''attachment'', JObj [(''name'', JStr ''f.png''),
                                               (''blob'', JStr ''garbage'')])]"

definition note_garbage_hydrated :: jsval where
  "note_garbage_hydrated = JObj [(''id'', JStr ''n3''), (''title'', JStr ''Broken''),
                                 (''attachment'', JObj [(''name'', JStr ''f.png''),
                                                        (''blob'', JNull)])]"

definition payload_mixed :: jsval where
  "payload_mixed = JObj [(''a'', JObj [(''notes'', JArr [])]),
                         (''b'', JObj [(''title'', JStr ''x'')])]"

definition payload_old :: jsval where
  "payload_old = JObj [(''id'', JStr ''old''), (''title'', JStr ''Imported''),
                       (''created'', JNum 3), (''lastUpdate'', JNum 4),
                       (''notes'', JArr [note_plain])]"

definition old_entry :: obj where
  "old_entry = [(''id'', JStr ''old''), (''title'', JStr ''Kept''), (''created'', JNum 1),
                (''lastUpdate'', JNum 2), (''notes'', JArr [])]"

text \<open>A handle without a type, as a file of an unknown kind has, and a note that holds it.\<close>

definition untyped :: blob where
  "untyped = Blob [] [1, 2]"

definition note_untyped :: jsval where
  "note_untyped = JObj [(''id'', JStr ''n4''), (''title'', JStr ''Data''),
                        (''attachment'', JObj [(''name'', JStr ''a.bin''), (''type'', JStr ''file''),
                                               (''mimeType'', JStr []), (''size'', JNum 2),
                                               (''blob'', JBlob untyped)])]"

definition note_untyped_hydrated :: jsval where
  "note_untyped_hydrated =
     JObj [(''id'', JStr ''n4''), (''title'', JStr ''Data''),
           (''attachment'', JObj [(''name'', JStr ''a.bin''), (''type'', JStr ''file''),
                                  (''mimeType'', JStr []), (''size'', JNum 2),
                                  (''blob'', JBlob (Blob ''application/octet-stream'' [1, 2]))])]"

definition notepad_three :: jsval where
  "notepad_three = JObj [(''id'', JStr ''p1''), (''title'', JStr ''Mine''), (''created'', JNum 3),
                         (''lastUpdate'', JNum 4),
                         (''notes'', JArr [note_png, note_plain, note_untyped])]"

text \<open>
  A library in which a restore has stored a record under a key that is not the id of the
  record (the key comes from the backup file, the id from the record), and the backup
  that the restore read.
\<close>

definition backup_misfiled :: jsval where
  "backup_misfiled = JObj [(''k1'', JObj [(''id'', JStr ''old''), (''title'', JStr ''Kept''),
                                          (''created'', JNum 1), (''lastUpdate'', JNum 2),
                                          (''notes'', JArr [])])]"

definition world_misfiled :: world where
  "world_misfiled = world0\<lparr>library := [(''k1'', old_entry)]\<rparr>"

text \<open>
  A library with an entry whose id is the one that the concrete environment generates,
  and a payload with this id.
\<close>

definition generated_entry :: obj where
  "generated_entry = [(''id'', JStr ''notepad-1700-k3j9x0q1z''), (''title'', JStr ''Kept''),
                      (''created'', JNum 1), (''lastUpdate'', JNum 2), (''notes'', JArr [])]"

definition world_generated :: world where
  "world_generated = world0\<lparr>library := [(''notepad-1700-k3j9x0q1z'', generated_entry)]\<rparr>"

definition payload_generated :: jsval where
  "payload_generated = JObj [(''id'', JStr ''notepad-1700-k3j9x0q1z''), (''title'', JStr ''Imported''),
                             (''created'', JNum 3), (''lastUpdate'', JNum 4),
                             (''notes'', JArr [note_plain])]"

definition imported_generated :: obj where
  "imported_generated = [(''id'', JStr ''notepad-1700-k3j9x0q1z''), (''title'', JStr ''Imported''),
                         (''created'', JNum 3), (''lastUpdate'', JNum 4),
                         (''notes'', JArr [note_plain])]"

definition imported_old :: obj where
  "imported_old = [(''id'', JStr ''old''), (''title'', JStr ''Imported''), (''created'', JNum 3),
                   (''lastUpdate'', JNum 4), (''notes'', JArr [note_plain])]"

text \<open>The two notes with a handle, as they are in an exported file.\<close>

definition note_png_serialized :: jsval where
  "note_png_serialized =
     JObj [(''id'', JStr ''n1''), (''title'', JStr ''Photo''), (''content'', JStr []),
           (''accentColor'', JStr []),
           (''attachment'', JObj [(''name'', JStr ''a.png''), (''type'', JStr ''image''),
                                  (''mimeType'', JStr ''image/png''), (''size'', JNum 5),
                                  (''blob'', JStr ''data:image/png;base64,iVBORw0='')]),
           (''collapsed'', JBool False)]"

definition note_untyped_serialized :: jsval where
  "note_untyped_serialized =
     JObj [(''id'', JStr ''n4''), (''title'', JStr ''Data''),
           (''attachment'', JObj [(''name'', JStr ''a.bin''), (''type'', JStr ''file''),
                                  (''mimeType'', JStr []), (''size'', JNum 2),
                                  (''blob'', JStr ''data:application/octet-stream;base64,AQI='')])]"

section \<open>Properties of the reducer\<close>

lemma splice_arr_last:
  "xs \<noteq> [] \<Longrightarrow> splice_arr xs (- 1) 1 [] = ([last xs], butlast xs)"
  by (cases xs rule: rev_cases) (auto simp: splice_arr_def splice_start_def Let_def)

lemma splice_arr_insert:
  "0 \<le> to \<Longrightarrow> to \<le> int (length xs) \<Longrightarrow>
   snd (splice_arr xs to 0 [x]) = take (nat to) xs @ [x] @ drop (nat to) xs"
  by (auto simp: splice_arr_def splice_start_def Let_def)

lemma reducer_step:
  assumes "notepadReducer timestamp state a = Inr state'" and "\<not> is_SET_NOTEPAD a"
  shows "if no_op state a then state' = state else lastUpdate state' = timestamp"
  using assms
  by (cases a) (auto simp: Let_def case_prod_beta split: sum.splits option.splits if_splits)

text \<open>
  C6. For every document and every MOVE_NOTE whose newIndex lies outside
  1 .. notes.length, whatever the source index, the reducer returns the state it was
  given: the same notes in the same order, and no new lastUpdate.
\<close>

theorem move_note_out_of_bounds_unchanged:
  "newIndex < 1 \<or> newIndex > int (length (notes state)) \<Longrightarrow>
   notepadReducer timestamp state (MOVE_NOTE oldIndex newIndex) = Inr state"
  by auto

theorem move_note_out_of_bounds_unchanged_witness:
  "((4::int) < 1 \<or> 4 > int (length (notes doc3))) \<and>
   notepadReducer 99 doc3 (MOVE_NOTE 2 4) = Inr doc3 \<and>
   ((0::int) < 1 \<or> 0 > int (length (notes doc3))) \<and>
   notepadReducer 99 doc3 (MOVE_NOTE 2 0) = Inr doc3"
  using move_note_out_of_bounds_unchanged [of 4 doc3 99 2]
        move_note_out_of_bounds_unchanged [of 0 doc3 99 2]
  by (simp add: doc3_def doc0_def)

text \<open>
  C9. The source index of MOVE_NOTE is not checked. With oldIndex = 0 the internal index
  is -1, which splice counts from the end: on a non-empty notes list and an in-range
  newIndex the reducer takes the last note out, puts it back at position newIndex - 1 and
  stamps lastUpdate, so the command is not a no-op.
\<close>

theorem move_note_source_zero_moves_last:
  assumes "notes state \<noteq> []" and "1 \<le> newIndex" and "newIndex \<le> int (length (notes state))"
  shows "notepadReducer timestamp state (MOVE_NOTE 0 newIndex) =
     Inr (state\<lparr>lastUpdate := timestamp,
       notes := take (nat (newIndex - 1)) (butlast (notes state)) @ [last (notes state)]
                @ drop (nat (newIndex - 1)) (butlast (notes state))\<rparr>)"
proof -
  have removed: "splice_arr (notes state) (0 - 1) 1 [] = ([last (notes state)], butlast (notes state))"
    using splice_arr_last [OF assms(1)] by simp
  have inserted: "snd (splice_arr (butlast (notes state)) (newIndex - 1) 0 [last (notes state)]) =
     take (nat (newIndex - 1)) (butlast (notes state)) @ [last (notes state)]
                @ drop (nat (newIndex - 1)) (butlast (notes state))"
    using assms by (intro splice_arr_insert) auto
  show ?thesis
    using assms removed inserted
    by (simp add: first_or_undefined_def Let_def case_prod_beta)
qed

theorem move_note_source_zero_moves_last_witness:
  "notes doc3 \<noteq> [] \<and> (1::int) \<le> 1 \<and> 1 \<le> int (length (notes doc3)) \<and>
   notepadReducer 99 doc3 (MOVE_NOTE 0 1) =
     Inr (doc3\<lparr>lastUpdate := 99,
       notes := [Some (note_of ''c''), Some (note_of ''a''), Some (note_of ''b'')]\<rparr>)"
  using move_note_source_zero_moves_last [of doc3 1 99]
  by (simp add: doc3_def doc0_def)

subsection \<open>Stamping over a run of commands\<close>

lemma run_append:
  "run state (pre @ post) = (case run state pre of Inl e \<Rightarrow> Inl e | Inr s \<Rightarrow> run s post)"
  by (induction pre arbitrary: state) (auto split: sum.splits)

lemma last_stamp_run:
  "run state cmds = Inr state' \<Longrightarrow> \<forall>(t, a) \<in> set cmds. \<not> is_SET_NOTEPAD a \<Longrightarrow>
   lastUpdate state' = last_stamp (lastUpdate state) state cmds"
proof (induction cmds arbitrary: state)
  case Nil
  then show ?case by simp
next
  case (Cons c cmds)
  obtain t a where c: "c = (t, a)" by (cases c)
  from Cons.prems(1) c obtain s1
    where s1: "notepadReducer t state a = Inr s1" and r: "run s1 cmds = Inr state'"
    by (auto split: sum.splits)
  from Cons.prems(2) c have ns: "\<not> is_SET_NOTEPAD a"
    and rest: "\<forall>(t, a) \<in> set cmds. \<not> is_SET_NOTEPAD a" by auto
  have step: "if no_op state a then s1 = state else lastUpdate s1 = t"
    using reducer_step [OF s1 ns] .
  have "lastUpdate state' = last_stamp (lastUpdate s1) s1 cmds"
    using Cons.IH [OF r rest] .
  then show ?case using step s1 c by (auto split: if_splits)
qed

lemma run_bounds:
  "run state cmds = Inr state' \<Longrightarrow> \<forall>(t, a) \<in> set cmds. \<not> is_SET_NOTEPAD a \<Longrightarrow>
   sorted (lastUpdate state # map fst cmds) \<Longrightarrow>
   lastUpdate state \<le> lastUpdate state' \<and>
   lastUpdate state' \<le> last (lastUpdate state # map fst cmds)"
proof (induction cmds arbitrary: state)
  case Nil
  then show ?case by simp
next
  case (Cons c cmds)
  obtain t a where c: "c = (t, a)" by (cases c)
  from Cons.prems(1) c obtain s1
    where s1: "notepadReducer t state a = Inr s1" and r: "run s1 cmds = Inr state'"
    by (auto split: sum.splits)
  from Cons.prems(2) c have ns: "\<not> is_SET_NOTEPAD a"
    and rest: "\<forall>(t, a) \<in> set cmds. \<not> is_SET_NOTEPAD a" by auto
  have step: "if no_op state a then s1 = state else lastUpdate s1 = t"
    using reducer_step [OF s1 ns] .
  from Cons.prems(3) c have le: "lastUpdate state \<le> t"
    and srt: "sorted (t # map fst cmds)" by auto
  have s1le: "lastUpdate state \<le> lastUpdate s1" "lastUpdate s1 \<le> t"
    using step le by (auto split: if_splits)
  have srt1: "sorted (lastUpdate s1 # map fst cmds)" using srt s1le by auto
  have ih: "lastUpdate s1 \<le> lastUpdate state' \<and>
            lastUpdate state' \<le> last (lastUpdate s1 # map fst cmds)"
    using Cons.IH [OF r rest srt1] .
  show ?case
  proof (cases cmds)
    case Nil
    then show ?thesis using ih s1le c by auto
  next
    case (Cons d ds)
    then show ?thesis using ih s1le c by auto
  qed
qed

text \<open>
  C5, as the specification states it, fails on the reducer: SET_NOTEPAD after a stamping
  command puts back whatever lastUpdate its payload carries (here 0 after 10), and a
  MOVE_NOTE with an out-of-range target, applied at time 20, leaves lastUpdate at 10.
\<close>

theorem lastUpdate_last_command_counterexample:
  "run doc0 [(10, UPDATE_TITLE ''a'')] = Inr (doc0\<lparr>title := ''a'', lastUpdate := 10\<rparr>) \<and>
   run doc0 [(10, UPDATE_TITLE ''a''), (20, SET_NOTEPAD doc0)] = Inr doc0 \<and>
   lastUpdate doc0 = 0 \<and>
   run doc0 [(10, UPDATE_TITLE ''a''), (20, MOVE_NOTE 1 5)] =
     Inr (doc0\<lparr>title := ''a'', lastUpdate := 10\<rparr>)"
  by (simp add: doc0_def)

text \<open>
  C5, amended. A transition other than SET_NOTEPAD either stamps lastUpdate with the
  clock reading of its call or is one of the reducer's no-ops, which return the state
  unchanged. Hence, over a run without SET_NOTEPAD whose clock readings do not decrease
  and do not lie before the initial lastUpdate, lastUpdate never decreases (stated for a
  run cut at any point into a first and a second part), and after the run it is the
  timestamp of the last command that was not a no-op, or the initial lastUpdate when
  every command was one.
\<close>

theorem lastUpdate_monotone_last_stamp:
  assumes noset': "list_all (\<lambda>c. \<not> is_SET_NOTEPAD (snd c)) (pre @ post)"
    and clock: "sorted (lastUpdate state # map fst (pre @ post))"
    and r1: "run state pre = Inr s1"
    and r2: "run s1 post = Inr s2"
  shows "lastUpdate state \<le> lastUpdate s1 \<and> lastUpdate s1 \<le> lastUpdate s2 \<and>
         lastUpdate s2 = last_stamp (lastUpdate state) state (pre @ post) \<and>
         notepadReducer t st (SET_NOTEPAD doc) = Inr doc \<and>
         (\<forall>a st'. \<not> is_SET_NOTEPAD a \<and> notepadReducer t st a = Inr st' \<longrightarrow>
            (if no_op st a then st' = st else lastUpdate st' = t))"
proof -
  have noset: "\<forall>(t, a) \<in> set (pre @ post). \<not> is_SET_NOTEPAD a"
    using noset' unfolding list_all_iff by (simp add: case_prod_beta)
  have np: "\<forall>(t, a) \<in> set pre. \<not> is_SET_NOTEPAD a"
    and nq: "\<forall>(t, a) \<in> set post. \<not> is_SET_NOTEPAD a"
    using noset by auto
  have sp: "sorted (lastUpdate state # map fst pre)"
    using clock by (simp add: sorted_append)
  have b1: "lastUpdate state \<le> lastUpdate s1 \<and>
            lastUpdate s1 \<le> last (lastUpdate state # map fst pre)"
    using run_bounds [OF r1 np sp] .
  have "\<forall>t \<in> set (map fst post). last (lastUpdate state # map fst pre) \<le> t"
    using clock by (cases pre rule: rev_cases) (auto simp: sorted_append)
  then have sq: "sorted (lastUpdate s1 # map fst post)"
    using clock b1 by (auto simp: sorted_append)
  have b2: "lastUpdate s1 \<le> lastUpdate s2"
    using run_bounds [OF r2 nq sq] by simp
  have "run state (pre @ post) = Inr s2"
    using r1 r2 by (simp add: run_append)
  then have stamp: "lastUpdate s2 = last_stamp (lastUpdate state) state (pre @ post)"
    using last_stamp_run noset by blast
  have step: "\<forall>a st'. \<not> is_SET_NOTEPAD a \<and> notepadReducer t st a = Inr st' \<longrightarrow>
            (if no_op st a then st' = st else lastUpdate st' = t)"
    using reducer_step [of t st] by blast
  show ?thesis using b1 b2 stamp step by simp
qed

theorem lastUpdate_monotone_last_stamp_witness:
  "list_all (\<lambda>c. \<not> is_SET_NOTEPAD (snd c)) ([(10, UPDATE_TITLE ''a'')] @
       [(20, MOVE_NOTE 1 5), (30, ADD_NOTE (note_of ''n'')),
        (30, DUPLICATE_NOTE ''zz'' (note_of ''m''))]) \<and>
   sorted (lastUpdate doc0 # map fst ([(10, UPDATE_TITLE ''a'')] @
       [(20, MOVE_NOTE 1 5), (30, ADD_NOTE (note_of ''n'')),
        (30, DUPLICATE_NOTE ''zz'' (note_of ''m''))])) \<and>
   run doc0 [(10, UPDATE_TITLE ''a'')] = Inr (doc0\<lparr>title := ''a'', lastUpdate := 10\<rparr>) \<and>
   run (doc0\<lparr>title := ''a'', lastUpdate := 10\<rparr>)
       [(20, MOVE_NOTE 1 5), (30, ADD_NOTE (note_of ''n'')),
        (30, DUPLICATE_NOTE ''zz'' (note_of ''m''))]
     = Inr (doc0\<lparr>title := ''a'', lastUpdate := 30, notes := [Some (note_of ''n'')]\<rparr>) \<and>
   last_stamp (lastUpdate doc0) doc0 ([(10, UPDATE_TITLE ''a'')] @
       [(20, MOVE_NOTE 1 5), (30, ADD_NOTE (note_of ''n'')),
        (30, DUPLICATE_NOTE ''zz'' (note_of ''m''))]) = 30"
  using lastUpdate_monotone_last_stamp
    [of "[(10, UPDATE_TITLE ''a'')]"
        "[(20, MOVE_NOTE 1 5), (30, ADD_NOTE (note_of ''n'')),
          (30, DUPLICATE_NOTE ''zz'' (note_of ''m''))]"
        doc0
        "doc0\<lparr>title := ''a'', lastUpdate := 10\<rparr>"
        "doc0\<lparr>title := ''a'', lastUpdate := 30, notes := [Some (note_of ''n'')]\<rparr>"]
  by (simp add: doc0_def note_of_def)

section \<open>Properties of the restore path\<close>

subsection \<open>Reading named properties\<close>

lemma digit_in: "d < 10 \<Longrightarrow> digit d \<in> set ''0123456789''"
  unfolding digit_def by (rule nth_mem) simp

lemma show_nat_digits: "c \<in> set (show_nat n) \<Longrightarrow> c \<in> set ''0123456789''"
proof (induction n rule: show_nat.induct)
  case (1 n)
  show ?case
  proof (cases "n < 10")
    case True
    with "1.prems" have "c = digit n" by (simp add: show_nat.simps [of n])
    then show ?thesis using digit_in [OF True] by simp
  next
    case False
    with "1.prems" have "c \<in> set (show_nat (n div 10)) \<or> c = digit (n mod 10)"
      by (auto simp: show_nat.simps [of n])
    then show ?thesis
    proof
      assume "c \<in> set (show_nat (n div 10))"
      then show ?thesis using "1.IH" False by simp
    next
      assume "c = digit (n mod 10)"
      then show ?thesis using digit_in [of "n mod 10"] by simp
    qed
  qed
qed

lemma show_nat_nonempty: "show_nat n \<noteq> []"
  by (subst show_nat.simps) simp

lemma index_key_starts_with_digit:
  assumes "k \<in> set (map show_nat ns)"
  shows "k \<noteq> [] \<and> hd k \<in> set ''0123456789''"
proof -
  from assms obtain n where k: "k = show_nat n" by auto
  have ne: "k \<noteq> []" using k show_nat_nonempty by simp
  then have "hd k \<in> set k" by simp
  then show ?thesis using ne k show_nat_digits by blast
qed

lemma map_of_zip_None: "k \<notin> set ks \<Longrightarrow> map_of (zip ks vs) k = None"
  by (auto simp: map_of_eq_None_iff dest: set_zip_leftD)

text \<open>A name that does not start with a digit is read from the copy as from the value.\<close>

lemma spread_named:
  assumes "k \<noteq> []" and "hd k \<notin> set ''0123456789''"
  shows "get_own (spread v) k = get v k"
proof (cases v)
  case (JArr xs)
  have "k \<notin> set (map show_nat [0..<length xs])"
    using index_key_starts_with_digit assms by blast
  then show ?thesis using JArr by (simp add: get_own_def map_of_zip_None)
next
  case (JStr s)
  have "k \<notin> set (map show_nat [0..<length s])"
    using index_key_starts_with_digit assms by blast
  then show ?thesis using JStr by (simp add: get_own_def map_of_zip_None)
qed (simp_all add: get_own_def)

subsection \<open>The validated mapping\<close>

lemma fold_assign_map_of:
  "map_of (fold (\<lambda>k m. if P k then assign k (g k) m else m) ks acc) k =
     (if k \<in> set ks \<and> P k \<and> k \<noteq> ''__proto__'' then Some (g k) else map_of acc k)"
  by (induction ks arbitrary: acc) (auto simp: assign_def update_conv')

lemma fold_assign_distinct:
  "distinct (map fst acc) \<Longrightarrow>
   distinct (map fst (fold (\<lambda>k m. if P k then assign k (g k) m else m) ks acc))"
  by (induction ks arbitrary: acc) (auto simp: assign_def distinct_update)

lemma validate_backup_map_of:
  "map_of (validate_backup e newData) k =
     (if k \<in> set (map fst (spread newData)) \<and> k \<noteq> ''__proto__'' \<and>
         keeps (get_own (spread newData) k)
      then Some (validated_notepad e k (get_own (spread newData) k)) else None)"
  unfolding validate_backup_def Let_def
  using fold_assign_map_of [of "\<lambda>k. keeps (get_own (spread newData) k)"
      "\<lambda>k. validated_notepad e k (get_own (spread newData) k)" "map fst (spread newData)" "[]" k]
  by simp

lemma validate_backup_distinct: "distinct (map fst (validate_backup e newData))"
  unfolding validate_backup_def Let_def
  by (rule fold_assign_distinct) simp

lemma validated_entry:
  assumes "(k, v) \<in> set (validate_backup e newData)"
  shows "\<exists>c. keeps c \<and> v = validated_notepad e k c"
proof -
  have "map_of (validate_backup e newData) k = Some v"
    using assms validate_backup_distinct by (simp add: map_of_eq_Some_iff)
  then show ?thesis
    by (auto simp: validate_backup_map_of split: if_splits)
qed

lemma bulkPut_map_of:
  "distinct (map fst data) \<Longrightarrow> map_of (bulkPut data lib) = map_of lib ++ map_of data"
  unfolding bulkPut_def
proof (induction data arbitrary: lib)
  case Nil
  then show ?case by simp
next
  case (Cons a data)
  obtain k v where a: "a = (k, v)" by (cases a)
  have "k \<notin> fst ` set data" using Cons.prems a by auto
  then have "map_of data k = None" by (simp add: map_of_eq_None_iff)
  then show ?case using Cons a
    by (auto simp: update_conv' fun_eq_iff map_add_def split: option.splits)
qed

lemma isSingle_validated_empty: "isSingleNotepad d \<Longrightarrow> validatedData_of e d = []"
  by (simp add: validatedData_of_def isBackupCollection_def)

lemma validatedData_of_distinct: "distinct (map fst (validatedData_of e d))"
  by (simp add: validatedData_of_def validate_backup_distinct)

text \<open>
  C1. A restore ends in one of three ways. Either the store is not touched at all: no
  call on the database, the library as it was; this is what happens when the dialog is
  not confirmed, no file is picked, the text does not parse, the payload has the shape of
  a single notepad (turned away before any filtering, with its own message), or the
  validated set is empty, which is reported as "No valid backup data found.". Or the
  validated set is not empty, and the calls on the database are clear followed by bulkPut
  of that whole set, after which the library is the validated mapping and a reload is
  scheduled. Or the validated set is not empty and the database cannot be opened: clear
  is called and rejects, and the library is as it was. So clear is never reached before
  the whole payload is validated in memory, and never with an empty validated set.
\<close>

theorem restore_clears_only_after_validation:
  assumes "restoreFullLibrary e proceed upload w = w'"
  shows "(library w' = library w \<and> db_calls w' = db_calls w \<and>
          (\<forall>d. proceed \<and> upload = Some (Some d) \<longrightarrow>
             validatedData_of e d = [] \<and>
             alerts w' = alerts w @ [if isSingleNotepad d then msg_single_notepad
                                     else msg_no_valid_data]))
       \<or> (\<exists>d. proceed \<and> upload = Some (Some d) \<and> \<not> isSingleNotepad d \<and>
             validatedData_of e d \<noteq> [] \<and> \<not> storage_unavailable e \<and>
             db_calls w' = db_calls w @ [DbClear, DbBulkPut (validatedData_of e d)] \<and>
             map_of (library w') = map_of (validatedData_of e d) \<and> reload_scheduled w')
       \<or> (\<exists>d. proceed \<and> upload = Some (Some d) \<and> \<not> isSingleNotepad d \<and>
             validatedData_of e d \<noteq> [] \<and> storage_unavailable e \<and>
             db_calls w' = db_calls w @ [DbClear] \<and> library w' = library w \<and>
             alerts w' = alerts w @ [msg_invalid_format])"
proof (cases "proceed \<and> (\<exists>d. upload = Some (Some d))")
  case False
  then have "library w' = library w \<and> db_calls w' = db_calls w"
    using assms
    by (auto simp: restoreFullLibrary_def setIsProcessing_def alert_def Let_def
        split: option.splits)
  with False show ?thesis by auto
next
  case True
  then obtain d where d: "proceed" "upload = Some (Some d)" by auto
  have w': "w' = setIsProcessing False
                  (dataFallbackMode e d (restore_callback e) (setIsProcessing True w))"
    using assms d by (simp add: restoreFullLibrary_def Let_def)
  show ?thesis
  proof (cases "isSingleNotepad d")
    case True
    then show ?thesis using w' d isSingle_validated_empty [OF True, of e]
      by (simp add: dataFallbackMode_def setIsProcessing_def alert_def)
  next
    case ns: False
    show ?thesis
    proof (cases "validatedData_of e d = []")
      case True
      then show ?thesis using w' d ns
        by (simp add: dataFallbackMode_def setIsProcessing_def alert_def Let_def)
    next
      case ne: False
      show ?thesis
      proof (cases "storage_unavailable e")
        case True
        then show ?thesis using w' d ns ne
          by (simp add: dataFallbackMode_def restore_callback_def setIsProcessing_def
              alert_def Let_def)
      next
        case False
        have "map_of (bulkPut (validatedData_of e d) []) = map_of (validatedData_of e d)"
          using bulkPut_map_of [OF validatedData_of_distinct, of e d "[]"] by simp
        then show ?thesis using w' d ns ne False
          by (simp add: dataFallbackMode_def restore_callback_def setIsProcessing_def
              alert_def Let_def)
      qed
    qed
  qed
qed

theorem restore_clears_only_after_validation_witness:
  "restoreFullLibrary browser True (Some (Some payload_x)) world1 =
     world1\<lparr>alerts := [msg_no_valid_data]\<rparr> \<and>
   restoreFullLibrary browser True (Some (Some payload_ab)) world1 =
     world1\<lparr>library := [(''a'', [(''id'', JStr ''a''), (''title'', JStr ''Untitled Notepad''),
                 (''created'', JNum 1700), (''lastUpdate'', JNum 1700), (''notes'', JArr [])])],
             db_calls := [DbClear, DbBulkPut [(''a'', [(''id'', JStr ''a''),
                 (''title'', JStr ''Untitled Notepad''),
                 (''created'', JNum 1700), (''lastUpdate'', JNum 1700), (''notes'', JArr [])])]],
             reload_scheduled := True\<rparr>"
  using restore_clears_only_after_validation [of browser True "Some (Some payload_x)" world1
              "restoreFullLibrary browser True (Some (Some payload_x)) world1"]
        restore_clears_only_after_validation [of browser True "Some (Some payload_ab)" world1
              "restoreFullLibrary browser True (Some (Some payload_ab)) world1"]
  by (simp add: restoreFullLibrary_def dataFallbackMode_def validatedData_of_def
      isBackupCollection_def isSingleNotepad_def validate_backup_def keeps_def get_own_def
      assign_def validated_notepad_def js_or_def elements_def restore_callback_def bulkPut_def
      setIsProcessing_def alert_def payload_x_def payload_ab_def world1_def world0_def
      browser_def Let_def)

subsection \<open>What the validation keeps and fills in\<close>

lemma process_note_id:
  "get (process_note e k i n) ''id'' =
     (if truthy (get n ''id'') then get n ''id''
      else JStr (generateID_at e ''note'' (NoteId k i)))"
  using spread_named [of "''id''" n]
  by (simp add: process_note_def Let_def get_own_def js_or_def)

lemma process_note_title:
  "get (process_note e k i n) ''title'' =
     (if truthy (get n ''title'') then get n ''title'' else JStr [])"
  using spread_named [of "''title''" n]
  by (simp add: process_note_def Let_def get_own_def js_or_def)

lemma process_note_content:
  "get (process_note e k i n) ''content'' =
     (if truthy (get n ''content'') then get n ''content'' else JStr [])"
  using spread_named [of "''content''" n]
  by (simp add: process_note_def Let_def get_own_def js_or_def)

lemma process_note_accentColor:
  "get (process_note e k i n) ''accentColor'' =
     (if truthy (get n ''accentColor'') then get n ''accentColor'' else JStr [])"
  using spread_named [of "''accentColor''" n]
  by (simp add: process_note_def Let_def get_own_def js_or_def)

lemma process_note_attachment:
  "get (process_note e k i n) ''attachment'' =
     (let att = get n ''attachment''; b = get att ''blob''
      in if truthy b \<and> is_string b
         then JObj (set_prop ''blob'' (base64ToBlob e b) (spread att))
         else if truthy att then att else JNull)"
  using spread_named [of "''attachment''" n]
  by (simp add: process_note_def Let_def get_own_def js_or_def)

lemma process_note_fields:
  "\<exists>fs. process_note e k i n = JObj fs \<and>
        map fst fs = [''id'', ''title'', ''content'', ''accentColor'', ''attachment'']"
  by (simp add: process_note_def Let_def)

lemma process_note_collapsed: "get (process_note e k i n) ''collapsed'' = JUndefined"
  by (simp add: process_note_def Let_def get_own_def)

text \<open>
  C3, as the specification states it, fails on the code: a candidate whose id is present
  but is the empty string, with an array of notes, is dropped, and the restore of a backup
  that holds only this candidate finds no valid data.
\<close>

theorem restore_present_id_dropped_counterexample:
  "spec_keeps (JObj [(''id'', JStr []), (''notes'', JArr [])]) \<and>
   validate_backup browser (JObj [(''a'', JObj [(''id'', JStr []), (''notes'', JArr [])])]) = []"
  by (simp add: spec_keeps_def validate_backup_def keeps_def get_own_def)

text \<open>
  C3, amended. A candidate of the backup mapping is kept exactly when it is truthy, its
  id is truthy (present and not the empty string, zero, false or null), its notes is an
  array, and its key is not \<^verbatim>\<open>__proto__\<close>; any other candidate is dropped without
  an error. A kept candidate is stored under its key with the fields id, title, created,
  lastUpdate and notes: the id as it is; the title, or "Untitled Notepad" when it is
  missing or falsy; created and lastUpdate, or the current time when missing or falsy;
  and one note for each note of the candidate, with its id, or a generated one when
  missing or falsy, its title, content and accentColor, or the empty string, and its
  attachment (with a string blob decoded), or null. The payload with the candidates a
  (with id a) and b (without id) gives exactly the one entry a.
\<close>

theorem restore_keeps_truthy_id_and_backfills:
  "map_of (validate_backup e newData) k =
     (if k \<in> set (map fst (spread newData)) \<and> k \<noteq> ''__proto__'' \<and>
         truthy (get_own (spread newData) k) \<and>
         truthy (get (get_own (spread newData) k) ''id'') \<and>
         isArray (get (get_own (spread newData) k) ''notes'')
      then Some (validated_notepad e k (get_own (spread newData) k)) else None) \<and>
   map fst (validated_notepad e k c) = [''id'', ''title'', ''created'', ''lastUpdate'', ''notes''] \<and>
   get_own (validated_notepad e k c) ''id'' = get c ''id'' \<and>
   get_own (validated_notepad e k c) ''title'' =
     (if truthy (get c ''title'') then get c ''title'' else JStr ''Untitled Notepad'') \<and>
   get_own (validated_notepad e k c) ''created'' =
     (if truthy (get c ''created'') then get c ''created''
      else JNum (date_now e (Created k))) \<and>
   get_own (validated_notepad e k c) ''lastUpdate'' =
     (if truthy (get c ''lastUpdate'') then get c ''lastUpdate''
      else JNum (date_now e (LastUpdate k))) \<and>
   get_own (validated_notepad e k c) ''notes'' =
     JArr (map (\<lambda>(i, n). process_note e k i n) (enumerate 0 (elements (get c ''notes'')))) \<and>
   get (process_note e k i n) ''id'' =
     (if truthy (get n ''id'') then get n ''id''
      else JStr (generateID_at e ''note'' (NoteId k i))) \<and>
   get (process_note e k i n) ''title'' =
     (if truthy (get n ''title'') then get n ''title'' else JStr []) \<and>
   get (process_note e k i n) ''content'' =
     (if truthy (get n ''content'') then get n ''content'' else JStr []) \<and>
   get (process_note e k i n) ''accentColor'' =
     (if truthy (get n ''accentColor'') then get n ''accentColor'' else JStr []) \<and>
   get (process_note e k i n) ''attachment'' =
     (let att = get n ''attachment''; b = get att ''blob''
      in if truthy b \<and> is_string b
         then JObj (set_prop ''blob'' (base64ToBlob e b) (spread att))
         else if truthy att then att else JNull) \<and>
   validate_backup e payload_ab =
     [(''a'', [(''id'', JStr ''a''), (''title'', JStr ''Untitled Notepad''),
               (''created'', JNum (date_now e (Created ''a''))),
               (''lastUpdate'', JNum (date_now e (LastUpdate ''a''))),
               (''notes'', JArr [])])]"
proof -
  have kept: "map_of (validate_backup e newData) k =
     (if k \<in> set (map fst (spread newData)) \<and> k \<noteq> ''__proto__'' \<and>
         truthy (get_own (spread newData) k) \<and>
         truthy (get (get_own (spread newData) k) ''id'') \<and>
         isArray (get (get_own (spread newData) k) ''notes'')
      then Some (validated_notepad e k (get_own (spread newData) k)) else None)"
    using validate_backup_map_of [of e newData k] by (simp add: keeps_def)
  have fields: "map fst (validated_notepad e k c) =
      [''id'', ''title'', ''created'', ''lastUpdate'', ''notes'']"
    by (simp add: validated_notepad_def)
  have f1: "get_own (validated_notepad e k c) ''id'' = get c ''id''"
    by (simp add: validated_notepad_def get_own_def)
  have f2: "get_own (validated_notepad e k c) ''title'' =
     (if truthy (get c ''title'') then get c ''title'' else JStr ''Untitled Notepad'')"
    by (simp add: validated_notepad_def get_own_def js_or_def)
  have f3: "get_own (validated_notepad e k c) ''created'' =
     (if truthy (get c ''created'') then get c ''created''
      else JNum (date_now e (Created k)))"
    by (simp add: validated_notepad_def get_own_def js_or_def)
  have f4: "get_own (validated_notepad e k c) ''lastUpdate'' =
     (if truthy (get c ''lastUpdate'') then get c ''lastUpdate''
      else JNum (date_now e (LastUpdate k)))"
    by (simp add: validated_notepad_def get_own_def js_or_def)
  have f5: "get_own (validated_notepad e k c) ''notes'' =
     JArr (map (\<lambda>(i, n). process_note e k i n) (enumerate 0 (elements (get c ''notes''))))"
    by (simp add: validated_notepad_def get_own_def)
  have example: "validate_backup e payload_ab =
     [(''a'', [(''id'', JStr ''a''), (''title'', JStr ''Untitled Notepad''),
               (''created'', JNum (date_now e (Created ''a''))),
               (''lastUpdate'', JNum (date_now e (LastUpdate ''a''))),
               (''notes'', JArr [])])]"
    by (simp add: payload_ab_def validate_backup_def keeps_def get_own_def assign_def
        validated_notepad_def js_or_def elements_def)
  show ?thesis
    using kept fields f1 f2 f3 f4 f5 process_note_id [of e k i n] process_note_title [of e k i n]
      process_note_content [of e k i n] process_note_accentColor [of e k i n]
      process_note_attachment [of e k i n] example
    by blast
qed

text \<open>
  C10. A note that the validation of a backup produces is an object with exactly the
  fields id, title, content, accentColor and attachment, in this order; a
  \<^verbatim>\<open>collapsed\<close> field of the input note is not carried over.
\<close>

theorem restore_note_fields:
  assumes "(k, v) \<in> set (validate_backup e newData)"
    and "n \<in> set (elements (get_own v ''notes''))"
  shows "\<exists>fs. n = JObj fs \<and>
           map fst fs = [''id'', ''title'', ''content'', ''accentColor'', ''attachment''] \<and>
           get n ''collapsed'' = JUndefined"
proof -
  obtain c where v: "v = validated_notepad e k c"
    using validated_entry [OF assms(1)] by blast
  from assms(2) obtain i nt where "n = process_note e k i nt"
    by (auto simp: v validated_notepad_def get_own_def elements_def)
  then show ?thesis
    using process_note_fields [of e k i nt] process_note_collapsed [of e k i nt]
    by auto
qed

theorem restore_note_fields_witness:
  "validate_backup browser payload_collapsed = [(''p'', restored_p)] \<and>
   restored_n1 \<in> set (elements (get_own restored_p ''notes'')) \<and>
   map fst (spread restored_n1) = [''id'', ''title'', ''content'', ''accentColor'', ''attachment''] \<and>
   get restored_n1 ''collapsed'' = JUndefined"
proof -
  have run: "validate_backup browser payload_collapsed = [(''p'', restored_p)]"
    by (simp add: payload_collapsed_def validate_backup_def keeps_def get_own_def assign_def
        validated_notepad_def js_or_def elements_def process_note_def Let_def
        restored_p_def restored_n1_def)
  have mem: "restored_n1 \<in> set (elements (get_own restored_p ''notes''))"
    by (simp add: restored_p_def get_own_def elements_def)
  have "(''p'', restored_p) \<in> set (validate_backup browser payload_collapsed)"
    using run by simp
  from restore_note_fields [OF this mem] run mem show ?thesis
    by (simp add: restored_n1_def get_own_def)
qed

section \<open>Properties of the codec\<close>

lemma get_set_prop:
  "get_own (set_prop k v fs) k' = (if k' = k then v else get_own fs k')"
  by (simp add: set_prop_def get_own_def update_conv')

lemma set_prop_same: "map_of fs k = Some v \<Longrightarrow> set_prop k v fs = fs"
  by (simp add: set_prop_def update_triv)

lemma set_prop_twice: "set_prop k v (set_prop k v' fs) = set_prop k v fs"
  by (simp add: set_prop_def)

lemma get_is_object: "get v k \<noteq> JUndefined \<Longrightarrow> \<exists>fs. v = JObj fs"
  by (cases v) simp_all

lemma get_own_Some: "get_own fs k = v \<Longrightarrow> v \<noteq> JUndefined \<Longrightarrow> map_of fs k = Some v"
  by (auto simp: get_own_def split: option.splits)

lemma read_prop_non_nullish: "non_nullish v \<Longrightarrow> read_prop v k = Inr (get v k)"
  by (cases v) (simp_all add: non_nullish_def)

lemma all_results_Inr:
  "(\<And>x. x \<in> set xs \<Longrightarrow> f x = Inr (g x)) \<Longrightarrow> all_results (map f xs) = Inr (map g xs)"
  by (induction xs) auto

text \<open>Hydration fails only on a null note, whatever the blobs are.\<close>

lemma hydrate_note_total:
  "non_nullish n \<Longrightarrow> \<exists>m. hydrate_note convert n = Inr m"
  by (auto simp: hydrate_note_def read_prop_non_nullish split: jsval.splits)

lemma hydrate_note_undecodable:
  assumes "get (get n ''attachment'') ''blob'' = JStr s"
    and "base64ToBlob e (JStr s) = JNull"
  shows "\<exists>fs afs. n = JObj fs \<and> get n ''attachment'' = JObj afs \<and>
           hydrate_note (base64ToBlob e) n =
             Inr (JObj (set_prop ''attachment'' (JObj (set_prop ''blob'' JNull afs)) fs))"
proof -
  obtain afs where att: "get n ''attachment'' = JObj afs"
    using get_is_object [of "get n ''attachment''" "''blob''"] assms(1) by auto
  obtain fs where n: "n = JObj fs"
    using get_is_object [of n "''attachment''"] att by auto
  show ?thesis
    using assms att n by (simp add: hydrate_note_def)
qed

lemma undecodable_null:
  "s = [] \<or> \<not> startsWith s ''data:'' \<or> fetch_blob e s = None \<Longrightarrow>
   base64ToBlob e (JStr s) = JNull"
  by (auto simp: base64ToBlob_def)

text \<open>
  C7, as the specification states it, fails on the code: the blob of the attachment
  becomes null, but the attachment itself stays on the note, with its other fields.
\<close>

theorem undecodable_attachment_kept_counterexample:
  "hydrateNotes (JArr [note_garbage]) (base64ToBlob browser) = Inr (JArr [note_garbage_hydrated]) \<and>
   get note_garbage_hydrated ''attachment'' = JObj [(''name'', JStr ''f.png''), (''blob'', JNull)]"
  by (simp add: hydrateNotes_def hydrate_note_def note_garbage_def note_garbage_hydrated_def
      get_own_def set_prop_def base64ToBlob_def startsWith_def browser_def)

text \<open>
  C7, amended. In the hydration of the notes of an imported notepad, a blob that is a
  string the codec cannot decode (empty, not a data URL, or one that the fetch rejects)
  becomes null: the note keeps its attachment, with every other field of the attachment
  and of the note as it was, and the hydration of the whole list succeeds as long as no
  note is null. The validation of a backup does the same to such a blob, except that it
  leaves an empty string as it is.
\<close>

theorem undecodable_blob_becomes_null:
  assumes "list_all non_nullish xs"
    and "i < length xs"
    and "get (get (xs ! i) ''attachment'') ''blob'' = JStr s"
    and "s = [] \<or> \<not> startsWith s ''data:'' \<or> fetch_blob e s = None"
  shows "\<exists>ys. hydrateNotes (JArr xs) (base64ToBlob e) = Inr (JArr ys) \<and>
           length ys = length xs \<and>
           get (get (ys ! i) ''attachment'') ''blob'' = JNull \<and>
           truthy (get (ys ! i) ''attachment'') \<and>
           (\<forall>k. k \<noteq> ''blob'' \<longrightarrow>
              get (get (ys ! i) ''attachment'') k = get (get (xs ! i) ''attachment'') k) \<and>
           (\<forall>k. k \<noteq> ''attachment'' \<longrightarrow> get (ys ! i) k = get (xs ! i) k) \<and>
           get (get (process_note e key j (xs ! i)) ''attachment'') ''blob'' =
             (if s = [] then JStr [] else JNull)"
proof -
  let ?h = "\<lambda>n. projr (hydrate_note (base64ToBlob e) n)"
  have each: "\<And>x. x \<in> set xs \<Longrightarrow> hydrate_note (base64ToBlob e) x = Inr (?h x)"
  proof -
    fix x assume "x \<in> set xs"
    then have "non_nullish x" using assms(1) by (simp add: list_all_iff)
    then obtain m where "hydrate_note (base64ToBlob e) x = Inr m"
      using hydrate_note_total by blast
    then show "hydrate_note (base64ToBlob e) x = Inr (?h x)" by simp
  qed
  have all: "hydrateNotes (JArr xs) (base64ToBlob e) = Inr (JArr (map ?h xs))"
    using all_results_Inr [of xs "hydrate_note (base64ToBlob e)" ?h] each
    by (simp add: hydrateNotes_def)
  have null: "base64ToBlob e (JStr s) = JNull"
    using undecodable_null [OF assms(4)] .
  obtain fs afs where n: "xs ! i = JObj fs" and att: "get (xs ! i) ''attachment'' = JObj afs"
    and h: "hydrate_note (base64ToBlob e) (xs ! i) =
              Inr (JObj (set_prop ''attachment'' (JObj (set_prop ''blob'' JNull afs)) fs))"
    using hydrate_note_undecodable [OF assms(3) null] by blast
  have yi: "map ?h xs ! i = JObj (set_prop ''attachment'' (JObj (set_prop ''blob'' JNull afs)) fs)"
    using assms(2) h by simp
  have a1: "get (map ?h xs ! i) ''attachment'' = JObj (set_prop ''blob'' JNull afs)"
    unfolding yi by (simp add: get_set_prop)
  have a2: "\<forall>k. k \<noteq> ''blob'' \<longrightarrow>
      get (get (map ?h xs ! i) ''attachment'') k = get (get (xs ! i) ''attachment'') k"
    unfolding a1 att by (simp add: get_set_prop)
  have a3: "\<forall>k. k \<noteq> ''attachment'' \<longrightarrow> get (map ?h xs ! i) k = get (xs ! i) k"
    unfolding yi n by (simp add: get_set_prop)
  have a4: "get (get (map ?h xs ! i) ''attachment'') ''blob'' = JNull"
    unfolding a1 by (simp add: get_set_prop)
  have blob: "get (JObj afs) ''blob'' = JStr s" using assms(3) att by simp
  have a5: "get (get (process_note e key j (xs ! i)) ''attachment'') ''blob'' =
             (if s = [] then JStr [] else JNull)"
    using att blob null by (simp add: process_note_attachment Let_def get_set_prop)
  show ?thesis
    using all a1 a2 a3 a4 a5 by (intro exI [of _ "map ?h xs"]) simp
qed

theorem undecodable_blob_becomes_null_witness:
  "list_all non_nullish [note_plain, note_garbage] \<and> (1::nat) < length [note_plain, note_garbage] \<and>
   get (get ([note_plain, note_garbage] ! 1) ''attachment'') ''blob'' = JStr ''garbage'' \<and>
   startsWith ''garbage'' ''data:'' = False \<and>
   hydrateNotes (JArr [note_plain, note_garbage]) (base64ToBlob browser) =
     Inr (JArr [note_plain, note_garbage_hydrated]) \<and>
   get (get note_garbage_hydrated ''attachment'') ''blob'' = JNull \<and>
   get (get note_garbage_hydrated ''attachment'') ''name'' = JStr ''f.png''"
  using undecodable_blob_becomes_null [of "[note_plain, note_garbage]" 1 "''garbage''" browser]
  by (simp add: hydrateNotes_def hydrate_note_def note_garbage_def note_garbage_hydrated_def
      note_plain_def non_nullish_def get_own_def set_prop_def base64ToBlob_def startsWith_def
      browser_def)

subsection \<open>Base64 and the data URLs of the platform\<close>

lemma low_nibble: "b < 256 \<Longrightarrow> b div 16 < (16::nat)"
  by simp

lemma low_pair: "c < 256 \<Longrightarrow> c div 64 < (4::nat)"
  by simp

lemma sextet1: "a < 256 \<Longrightarrow> a div 4 < (64::nat)"
  by simp

lemma sextet2_last: "(a mod 4) * 16 < (64::nat)"
  by simp

lemma sextet2: "b < 256 \<Longrightarrow> (a mod 4) * 16 + b div 16 < (64::nat)"
  using low_nibble [of b] mod_less_divisor [of 4 a] by linarith

lemma sextet3_last: "(b mod 16) * 4 < (64::nat)"
  by simp

lemma sextet3: "c < 256 \<Longrightarrow> (b mod 16) * 4 + c div 64 < (64::nat)"
  using low_pair [of c] mod_less_divisor [of 16 b] by linarith

lemma sextet4: "c mod 64 < (64::nat)"
  by simp

lemma byte1_last: "a div 4 * 4 + (a mod 4) * 16 div 16 = (a::nat)"
  by simp

lemma byte1: "b < 256 \<Longrightarrow> a div 4 * 4 + ((a mod 4) * 16 + b div 16) div 16 = (a::nat)"
  using low_nibble [of b] by simp

lemma sextet2_mod: "b < 256 \<Longrightarrow> ((a mod 4) * 16 + b div 16) mod 16 = (b::nat) div 16"
  using low_nibble [of b] by simp

lemma sextet3_div: "c < 256 \<Longrightarrow> ((b mod 16) * 4 + c div 64) div 4 = (b::nat) mod 16"
  using low_pair [of c] by simp

lemma sextet3_mod: "c < 256 \<Longrightarrow> ((b mod 16) * 4 + c div 64) mod 4 = (c::nat) div 64"
  using low_pair [of c] by simp

lemma byte2_last:
  "b < 256 \<Longrightarrow> ((a mod 4) * 16 + b div 16) mod 16 * 16 + (b mod 16) * 4 div 4 = (b::nat)"
  by (simp only: sextet2_mod) simp

lemma byte2:
  "b < 256 \<Longrightarrow> c < 256 \<Longrightarrow>
   ((a mod 4) * 16 + b div 16) mod 16 * 16 + ((b mod 16) * 4 + c div 64) div 4 = (b::nat)"
  by (simp only: sextet2_mod sextet3_div) simp

lemma byte3: "c < 256 \<Longrightarrow> ((b mod 16) * 4 + c div 64) mod 4 * 64 + c mod 64 = (c::nat)"
  by (simp only: sextet3_mod) simp

lemma index_of_nth: "distinct xs \<Longrightarrow> n < length xs \<Longrightarrow> index_of (xs ! n) xs = Some n"
proof (induction xs arbitrary: n)
  case Nil
  then show ?case by simp
next
  case (Cons x xs)
  show ?case
  proof (cases n)
    case 0
    then show ?thesis by simp
  next
    case (Suc m)
    then have "xs ! m \<in> set xs" using Cons.prems by simp
    then have "xs ! m \<noteq> x" using Cons.prems by auto
    then show ?thesis using Suc Cons by auto
  qed
qed

lemma b64_distinct: "distinct b64_alphabet"
  by (simp add: b64_alphabet_def)

lemma b64_length: "length b64_alphabet = 64"
  by (simp add: b64_alphabet_def)

lemma index_b64_char: "n < 64 \<Longrightarrow> index_of (b64_char n) b64_alphabet = Some n"
  unfolding b64_char_def using index_of_nth [OF b64_distinct, of "n mod 64"]
  by (simp add: b64_length)

lemma b64_char_in: "b64_char n \<in> set b64_alphabet"
  unfolding b64_char_def by (rule nth_mem) (simp add: b64_length)

lemma b64_char_not_special:
  "b64_char n \<noteq> CHR ''=''" "b64_char n \<noteq> CHR '',''" "b64_char n \<noteq> CHR ''#''"
proof -
  have "CHR ''='' \<notin> set b64_alphabet" "CHR '','' \<notin> set b64_alphabet"
    "CHR ''#'' \<notin> set b64_alphabet"
    by (simp_all add: b64_alphabet_def)
  then show "b64_char n \<noteq> CHR ''=''" "b64_char n \<noteq> CHR '',''" "b64_char n \<noteq> CHR ''#''"
    using b64_char_in [of n] by auto
qed

lemma decode_one:
  assumes "a < 256"
  shows "base64_decode [b64_char (a div 4), b64_char ((a mod 4) * 16), CHR ''='', CHR ''='']
         = Some [a]"
proof -
  have i1: "index_of (b64_char (a div 4)) b64_alphabet = Some (a div 4)"
    using assms by (intro index_b64_char sextet1)
  have i2: "index_of (b64_char ((a mod 4) * 16)) b64_alphabet = Some ((a mod 4) * 16)"
    by (intro index_b64_char sextet2_last)
  show ?thesis
    unfolding base64_decode.simps i1 i2 using byte1_last [of a] by simp
qed

lemma decode_two:
  assumes "a < 256" "b < 256"
  shows "base64_decode [b64_char (a div 4), b64_char ((a mod 4) * 16 + b div 16),
           b64_char ((b mod 16) * 4), CHR ''=''] = Some [a, b]"
proof -
  have i1: "index_of (b64_char (a div 4)) b64_alphabet = Some (a div 4)"
    using assms by (intro index_b64_char sextet1)
  have i2: "index_of (b64_char ((a mod 4) * 16 + b div 16)) b64_alphabet =
            Some ((a mod 4) * 16 + b div 16)"
    using assms by (intro index_b64_char sextet2)
  have i3: "index_of (b64_char ((b mod 16) * 4)) b64_alphabet = Some ((b mod 16) * 4)"
    by (intro index_b64_char sextet3_last)
  have ne: "b64_char ((b mod 16) * 4) \<noteq> CHR ''=''"
    by (rule b64_char_not_special)
  show ?thesis
    unfolding base64_decode.simps i1 i2 i3
    using ne byte1 [OF assms(2), of a] byte2_last [OF assms(2), of a] by simp
qed

lemma decode_three:
  assumes "a < 256" "b < 256" "c < 256" and "base64_decode rest = Some bs"
  shows "base64_decode (b64_char (a div 4) # b64_char ((a mod 4) * 16 + b div 16) #
           b64_char ((b mod 16) * 4 + c div 64) # b64_char (c mod 64) # rest)
         = Some (a # b # c # bs)"
proof -
  have i1: "index_of (b64_char (a div 4)) b64_alphabet = Some (a div 4)"
    using assms by (intro index_b64_char sextet1)
  have i2: "index_of (b64_char ((a mod 4) * 16 + b div 16)) b64_alphabet =
            Some ((a mod 4) * 16 + b div 16)"
    using assms by (intro index_b64_char sextet2)
  have i3: "index_of (b64_char ((b mod 16) * 4 + c div 64)) b64_alphabet =
            Some ((b mod 16) * 4 + c div 64)"
    using assms by (intro index_b64_char sextet3)
  have i4: "index_of (b64_char (c mod 64)) b64_alphabet = Some (c mod 64)"
    by (intro index_b64_char sextet4)
  have ne: "b64_char ((b mod 16) * 4 + c div 64) \<noteq> CHR ''=''" "b64_char (c mod 64) \<noteq> CHR ''=''"
    by (rule b64_char_not_special)+
  show ?thesis
    unfolding base64_decode.simps i1 i2 i3 i4 assms(4)
    using ne byte1 [OF assms(2), of a] byte2 [OF assms(2) assms(3), of a] byte3 [OF assms(3), of b]
    by simp
qed

text \<open>Decoding the Base64 of a list of bytes gives the bytes.\<close>

lemma decode_encode:
  "list_all (\<lambda>a. a < 256) bs \<Longrightarrow> base64_decode (base64_encode bs) = Some bs"
proof (induction bs rule: base64_encode.induct)
  case 1
  then show ?case by simp
next
  case (2 a)
  then show ?case using decode_one [of a] by simp
next
  case (3 a b)
  then show ?case using decode_two [of a b] by simp
next
  case (4 a b c rest)
  then have "base64_decode (base64_encode rest) = Some rest" by simp
  from decode_three [OF _ _ _ this, of a b c] 4 show ?case by simp
qed

lemma encode_chars: "c \<in> set (base64_encode bs) \<Longrightarrow> c \<noteq> CHR '','' \<and> c \<noteq> CHR ''#''"
  by (induction bs rule: base64_encode.induct) (auto simp: b64_char_not_special)

lemma byte_bound: "unat (w :: 8 word) < 256"
  using unsigned_less [of w] by simp

text \<open>
  The fetch of the data URL of a handle gives the bytes of the handle, under the type
  that the URL carries.
\<close>

lemma fetch_data_url_data_url:
  assumes "CHR '','' \<notin> set (blob_type b)" and "CHR ''#'' \<notin> set (blob_type b)"
  shows "fetch_data_url (data_url b) = Some (Blob (url_media_type b) (blob_bytes b))"
proof -
  let ?m = "url_media_type b"
  let ?p = "base64_encode (map unat (blob_bytes b))"
  have m: "CHR '','' \<notin> set ?m" "CHR ''#'' \<notin> set ?m"
    using assms by (auto simp: url_media_type_def)
  have nohash: "\<forall>c \<in> set (data_url b). c \<noteq> CHR ''#''"
    using m encode_chars by (auto simp: data_url_def)
  then have u: "takeWhile (\<lambda>c. c \<noteq> CHR ''#'') (data_url b) = data_url b"
    by (simp add: takeWhile_eq_all_conv)
  have pre: "startsWith (data_url b) ''data:''"
    by (simp add: data_url_def startsWith_def)
  have rest: "drop 5 (data_url b) = (?m @ '';base64'') @ CHR '','' # ?p"
    by (simp add: data_url_def)
  have meta: "takeWhile (\<lambda>c. c \<noteq> CHR '','') ((?m @ '';base64'') @ CHR '','' # ?p) = ?m @ '';base64''"
    using m by (subst takeWhile_append2) auto
  have bytes: "list_all (\<lambda>a. a < 256) (map unat (blob_bytes b))"
    by (simp add: list_all_iff byte_bound)
  have dec: "base64_decode ?p = Some (map unat (blob_bytes b))"
    using decode_encode [OF bytes] .
  have payload: "drop (Suc (length (?m @ '';base64''))) ((?m @ '';base64'') @ CHR '','' # ?p) = ?p"
    by simp
  have tail: "drop (length (?m @ '';base64'') - 7) (?m @ '';base64'') = '';base64''"
    by simp
  have ty: "take (length (?m @ '';base64'') - 7) (?m @ '';base64'') = ?m"
    by simp
  have words: "map of_nat (map unat (blob_bytes b)) = blob_bytes b"
    by (simp add: o_def)
  show ?thesis
    unfolding fetch_data_url_def u Let_def rest meta payload tail ty dec
    using pre words by simp
qed

text \<open>The concrete environment follows the data URLs for every handle.\<close>

lemma browser_conforms: "conforms browser b"
  by (simp add: conforms_def browser_def)

subsection \<open>Equality up to the identity of the handle\<close>

lemma same_fields_refl: "(\<And>u. R u u) \<Longrightarrow> same_fields k R fs fs"
  by (simp add: same_fields_def list_all2_same)

lemma same_blob_refl: "same_blob u u"
  by (cases u) (simp_all add: same_blob_def)

lemma same_attachment_refl: "same_attachment u u"
  by (cases u) (simp_all add: same_attachment_def same_fields_refl same_blob_refl)

lemma content_equal_refl: "content_equal z z"
  by (cases z) (simp_all add: content_equal_def same_fields_refl same_attachment_refl)

text \<open>
  The equality tells notes apart: a handle is not equal to its data URL, nor a null blob
  to a string, nor a handle to one with other bytes.
\<close>

lemma content_equal_distinguishes:
  "\<not> content_equal note_png_serialized note_png \<and>
   \<not> content_equal note_garbage_hydrated note_garbage \<and>
   \<not> same_blob (JBlob (Blob ''image/png'' [137, 80])) (JBlob png) \<and>
   same_blob (JBlob (Blob ''application/octet-stream'' [1, 2])) (JBlob untyped)"
  by (simp add: content_equal_def same_fields_def same_attachment_def same_blob_def
      note_png_serialized_def note_png_def note_garbage_hydrated_def note_garbage_def
      png_def untyped_def)

text \<open>Writing a related value over a property gives an object with the same fields.\<close>

lemma same_fields_update:
  assumes "\<And>u. R u u"
  shows "map_of fs k = Some v \<Longrightarrow> R v' v \<Longrightarrow> same_fields k R (set_prop k v' fs) fs"
proof (induction fs)
  case Nil
  then show ?case by simp
next
  case (Cons f fs)
  obtain a u where f: "f = (a, u)" by (cases f)
  show ?case
  proof (cases "a = k")
    case True
    then have "u = v" using Cons.prems f by simp
    then show ?thesis
      using True f Cons.prems(2) same_fields_refl [of R k fs] assms
      by (simp add: set_prop_def same_fields_def)
  next
    case False
    then have "map_of fs k = Some v" using Cons.prems f by simp
    from Cons.IH [OF this Cons.prems(2)] show ?thesis
      using False f by (simp add: set_prop_def same_fields_def)
  qed
qed

subsection \<open>The round trip\<close>

lemma note_round_trip:
  assumes "valid_note e n"
  shows "\<exists>m z. serialize_note (blobToBase64 e) n = Inr m \<and>
                hydrate_note (base64ToBlob e) m = Inr z \<and> content_equal z n"
proof (cases "get (get n ''attachment'') ''blob''")
  case (JBlob b)
  obtain afs where att: "get n ''attachment'' = JObj afs"
    using get_is_object [of "get n ''attachment''" "''blob''"] JBlob by auto
  obtain fs where n: "n = JObj fs"
    using get_is_object [of n "''attachment''"] att by auto
  from assms JBlob have ty: "CHR '','' \<notin> set (blob_type b)" "CHR ''#'' \<notin> set (blob_type b)"
    and c: "conforms e b"
    by (simp_all add: valid_note_def)
  have s: "readAsDataURL e b = Some (data_url b)"
    using c by (simp add: conforms_def)
  have "map_option blob_bytes (fetch_blob e (data_url b)) = Some (blob_bytes b)"
    using c fetch_data_url_data_url [OF ty] by (simp add: conforms_def)
  then obtain b' where rt: "fetch_blob e (data_url b) = Some b'"
    and bytes: "blob_bytes b' = blob_bytes b"
    by auto
  have sw: "startsWith (data_url b) ''data:''"
    by (simp add: data_url_def startsWith_def)
  have s_ne: "data_url b \<noteq> []"
    by (simp add: data_url_def)
  have dec: "base64ToBlob e (JStr (data_url b)) = JBlob b'"
    using s_ne sw rt by (simp add: base64ToBlob_def)
  have m_att: "map_of fs ''attachment'' = Some (JObj afs)"
    using att n get_own_Some [of fs "''attachment''" "JObj afs"] by simp
  have m_blob: "map_of afs ''blob'' = Some (JBlob b)"
    using JBlob att get_own_Some [of afs "''blob''" "JBlob b"] by simp
  let ?m = "JObj (set_prop ''attachment'' (JObj (set_prop ''blob'' (JStr (data_url b)) afs)) fs)"
  let ?z = "JObj (set_prop ''attachment'' (JObj (set_prop ''blob'' (JBlob b') afs)) fs)"
  have ser: "serialize_note (blobToBase64 e) n = Inr ?m"
    using n att JBlob s by (simp add: serialize_note_def blobToBase64_def)
  have hyd: "hydrate_note (base64ToBlob e) ?m = Inr ?z"
    using dec by (simp add: hydrate_note_def get_set_prop set_prop_twice)
  have "same_blob (JBlob b') (JBlob b)"
    using bytes by (simp add: same_blob_def)
  then have "same_fields ''blob'' same_blob (set_prop ''blob'' (JBlob b') afs) afs"
    using same_fields_update [of same_blob afs "''blob''" "JBlob b" "JBlob b'"] m_blob
      same_blob_refl by simp
  then have "same_attachment (JObj (set_prop ''blob'' (JBlob b') afs)) (JObj afs)"
    by (simp add: same_attachment_def)
  then have "same_fields ''attachment'' same_attachment
               (set_prop ''attachment'' (JObj (set_prop ''blob'' (JBlob b') afs)) fs) fs"
    using same_fields_update [of same_attachment fs "''attachment''" "JObj afs"
        "JObj (set_prop ''blob'' (JBlob b') afs)"] m_att same_attachment_refl by simp
  then have "content_equal ?z n"
    using n by (simp add: content_equal_def)
  then show ?thesis using ser hyd by blast
qed (use assms content_equal_refl [of n] in \<open>auto simp: valid_note_def serialize_note_def
      hydrate_note_def read_prop_non_nullish\<close>)

text \<open>
  C2. Take a notepad in memory whose notes are valid (no note is null, every attachment
  blob is a binary handle or absent) on a platform that follows the data URLs for these
  handles. Serializing the notes succeeds, and hydrating the notes of the payload that the
  export builds from them succeeds and gives notes equal to the notes of the notepad up to
  the identity of the handles: the same notes in the same order, every property of every
  note and of every attachment as it was, every blob a handle with the same bytes. The
  notepad that the import builds from the payload has the id, the title and the two dates
  of the notepad, and these notes. That the bytes come back is not assumed: it follows
  from the Base64 of the data URLs.
\<close>

theorem serialize_hydrate_round_trip:
  assumes "get x ''notes'' = JArr xs"
    and "list_all (valid_note e) xs"
  shows "\<exists>ys zs. serializeNotes (get x ''notes'') (blobToBase64 e) = Inr (JArr ys) \<and>
           hydrateNotes (get (cleanPayload x (JArr ys)) ''notes'') (base64ToBlob e) =
             Inr (JArr zs) \<and>
           list_all2 content_equal zs xs \<and>
           imported_notepad (cleanPayload x (JArr ys)) (JArr zs) =
             [(''id'', get x ''id''), (''title'', get x ''title''),
              (''created'', get x ''created''), (''lastUpdate'', get x ''lastUpdate''),
              (''notes'', JArr zs)]"
proof -
  let ?s = "\<lambda>n. projr (serialize_note (blobToBase64 e) n)"
  let ?z = "\<lambda>n. projr (hydrate_note (base64ToBlob e) (?s n))"
  have each: "\<And>n. n \<in> set xs \<Longrightarrow>
      serialize_note (blobToBase64 e) n = Inr (?s n) \<and>
      hydrate_note (base64ToBlob e) (?s n) = Inr (?z n) \<and> content_equal (?z n) n"
  proof -
    fix n assume "n \<in> set xs"
    then have "valid_note e n" using assms(2) by (simp add: list_all_iff)
    then obtain m z where "serialize_note (blobToBase64 e) n = Inr m"
      and "hydrate_note (base64ToBlob e) m = Inr z" and "content_equal z n"
      using note_round_trip by blast
    then show "serialize_note (blobToBase64 e) n = Inr (?s n) \<and>
      hydrate_note (base64ToBlob e) (?s n) = Inr (?z n) \<and> content_equal (?z n) n" by simp
  qed
  have ser: "serializeNotes (get x ''notes'') (blobToBase64 e) = Inr (JArr (map ?s xs))"
    using all_results_Inr [of xs "serialize_note (blobToBase64 e)" ?s] each assms(1)
    by (simp add: serializeNotes_def)
  have payload: "get (cleanPayload x (JArr (map ?s xs))) ''notes'' = JArr (map ?s xs)"
    by (simp add: cleanPayload_def get_own_def)
  have "all_results (map (hydrate_note (base64ToBlob e)) (map ?s xs)) = Inr (map ?z xs)"
    unfolding map_map
    using all_results_Inr [of xs "hydrate_note (base64ToBlob e) \<circ> ?s" ?z] each
    by simp
  then have hyd: "hydrateNotes (get (cleanPayload x (JArr (map ?s xs))) ''notes'')
                    (base64ToBlob e) = Inr (JArr (map ?z xs))"
    unfolding payload by (simp add: hydrateNotes_def)
  have eq: "list_all2 content_equal (map ?z xs) xs"
    using each by (simp add: list_all2_map1 list_all2_same)
  have whole: "imported_notepad (cleanPayload x (JArr (map ?s xs))) (JArr (map ?z xs)) =
             [(''id'', get x ''id''), (''title'', get x ''title''),
              (''created'', get x ''created''), (''lastUpdate'', get x ''lastUpdate''),
              (''notes'', JArr (map ?z xs))]"
    by (simp add: imported_notepad_def cleanPayload_def set_prop_def)
  show ?thesis using ser hyd eq whole by blast
qed

theorem serialize_hydrate_round_trip_witness:
  "get notepad_three ''notes'' = JArr [note_png, note_plain, note_untyped] \<and>
   list_all (valid_note browser) [note_png, note_plain, note_untyped] \<and>
   serializeNotes (get notepad_three ''notes'') (blobToBase64 browser) =
     Inr (JArr [note_png_serialized, note_plain, note_untyped_serialized]) \<and>
   hydrateNotes (JArr [note_png_serialized, note_plain, note_untyped_serialized])
     (base64ToBlob browser) = Inr (JArr [note_png, note_plain, note_untyped_hydrated]) \<and>
   list_all2 content_equal [note_png, note_plain, note_untyped_hydrated]
     [note_png, note_plain, note_untyped] \<and>
   imported_notepad
     (cleanPayload notepad_three (JArr [note_png_serialized, note_plain, note_untyped_serialized]))
     (JArr [note_png, note_plain, note_untyped_hydrated]) =
     [(''id'', JStr ''p1''), (''title'', JStr ''Mine''), (''created'', JNum 3),
      (''lastUpdate'', JNum 4), (''notes'', JArr [note_png, note_plain, note_untyped_hydrated])]"
proof -
  have url_png: "data_url png = ''data:image/png;base64,iVBORw0=''"
    by (simp add: data_url_def url_media_type_def png_def b64_char_def b64_alphabet_def)
  have url_untyped: "data_url untyped = ''data:application/octet-stream;base64,AQI=''"
    by (simp add: data_url_def url_media_type_def untyped_def b64_char_def b64_alphabet_def)
  have fetched_png: "fetch_data_url ''data:image/png;base64,iVBORw0='' = Some png"
    by (simp add: fetch_data_url_def startsWith_def png_def b64_alphabet_def Let_def)
  have fetched_untyped: "fetch_data_url ''data:application/octet-stream;base64,AQI='' =
      Some (Blob ''application/octet-stream'' [1, 2])"
    by (simp add: fetch_data_url_def startsWith_def b64_alphabet_def Let_def)
  have nts: "get notepad_three ''notes'' = JArr [note_png, note_plain, note_untyped]"
    by (simp add: notepad_three_def get_own_def)
  have valid: "list_all (valid_note browser) [note_png, note_plain, note_untyped]"
    by (simp add: valid_note_def non_nullish_def note_png_def note_plain_def note_untyped_def
        get_own_def browser_conforms png_def untyped_def)
  have ser: "serializeNotes (get notepad_three ''notes'') (blobToBase64 browser) =
     Inr (JArr [note_png_serialized, note_plain, note_untyped_serialized])"
    unfolding nts
    by (simp add: serializeNotes_def serialize_note_def blobToBase64_def note_png_def
        note_plain_def note_untyped_def note_png_serialized_def note_untyped_serialized_def
        get_own_def set_prop_def browser_def url_png url_untyped)
  have hyd: "hydrateNotes (JArr [note_png_serialized, note_plain, note_untyped_serialized])
     (base64ToBlob browser) = Inr (JArr [note_png, note_plain, note_untyped_hydrated])"
    by (simp add: hydrateNotes_def hydrate_note_def base64ToBlob_def note_png_def
        note_plain_def note_untyped_hydrated_def note_png_serialized_def
        note_untyped_serialized_def get_own_def set_prop_def browser_def startsWith_def
        fetched_png fetched_untyped)
  have fields: "get notepad_three ''id'' = JStr ''p1''" "get notepad_three ''title'' = JStr ''Mine''"
    "get notepad_three ''created'' = JNum 3" "get notepad_three ''lastUpdate'' = JNum 4"
    by (simp_all add: notepad_three_def get_own_def)
  from serialize_hydrate_round_trip [OF nts valid] ser hyd nts valid fields show ?thesis
    by (auto simp: cleanPayload_def get_own_def)
qed

section \<open>Properties of the single-notepad import\<close>

subsection \<open>The backup heuristic\<close>

lemma some_notes_found:
  "list_all non_nullish pre \<Longrightarrow> truthy (get v ''notes'') \<Longrightarrow>
   some_notes (pre @ v # post) = Inr True"
proof (induction pre)
  case Nil
  then have "non_nullish v" by (cases v) (simp_all add: non_nullish_def)
  then show ?case using Nil by (simp add: read_prop_non_nullish)
next
  case (Cons p pre)
  then show ?case by (simp add: read_prop_non_nullish)
qed

lemma some_notes_True:
  "some_notes vs = Inr True \<Longrightarrow>
   \<exists>pre v post. vs = pre @ v # post \<and> truthy (get v ''notes'') \<and> list_all non_nullish pre"
proof (induction vs)
  case Nil
  then show ?case by simp
next
  case (Cons a vs)
  show ?case
  proof (cases "non_nullish a")
    case False
    then have "read_prop a ''notes'' = Inl TypeError"
      by (cases a) (simp_all add: non_nullish_def)
    then show ?thesis using Cons.prems by simp
  next
    case nn: True
    show ?thesis
    proof (cases "truthy (get a ''notes'')")
      case True
      then have "a # vs = [] @ a # vs \<and> truthy (get a ''notes'') \<and> list_all non_nullish []"
        by simp
      then show ?thesis by blast
    next
      case False
      then have "some_notes vs = Inr True"
        using Cons.prems nn by (simp add: read_prop_non_nullish)
      then obtain pre v post where "vs = pre @ v # post" "truthy (get v ''notes'')"
        "list_all non_nullish pre" using Cons.IH by blast
      then have "a # vs = (a # pre) @ v # post \<and> truthy (get v ''notes'') \<and>
                 list_all non_nullish (a # pre)" using nn by simp
      then show ?thesis by blast
    qed
  qed
qed

text \<open>
  C4, as the specification states it, fails on the code: in this payload one value has a
  \<^verbatim>\<open>notes\<close> sequence and the other has no \<^verbatim>\<open>notes\<close> at all, so not each value
  contains one, and the import turns the payload away as a backup all the same.
\<close>

theorem import_some_value_counterexample:
  "\<not> spec_is_backup payload_mixed \<and>
   importSingleNotepad browser (Some payload_mixed) None world1 =
     world1\<lparr>alerts := [msg_is_backup]\<rparr>"
  by (simp add: spec_is_backup_def payload_mixed_def importSingleNotepad_def isBackup_def
      get_own_def setIsProcessing_def alert_def world1_def world0_def)

text \<open>
  C4, amended. The import turns a payload away as a backup (the message that points to
  the restore button, and no other change: no call on the database, the library as it
  was) exactly when the payload is an object or an array without a truthy top-level
  \<^verbatim>\<open>notes\<close> and at least one of its values has a truthy \<^verbatim>\<open>notes\<close>, no null
  value standing before the first such value. For any other payload this message is not
  shown: the import shows no message or the one of a failed import.
\<close>

theorem import_rejects_backup_shape:
  "(isBackup d = Inr True) =
     (truthy d \<and> typeof_object d \<and> \<not> truthy (get d ''notes'') \<and>
      (\<exists>pre v post. map snd (spread d) = pre @ v # post \<and> truthy (get v ''notes'') \<and>
                     list_all non_nullish pre)) \<and>
   (isBackup d = Inr True \<longrightarrow>
      importSingleNotepad e (Some d) choice w =
        w\<lparr>alerts := alerts w @ [msg_is_backup], isProcessing := False\<rparr>) \<and>
   (isBackup d \<noteq> Inr True \<longrightarrow>
      alerts (importSingleNotepad e (Some d) choice w) = alerts w \<or>
      alerts (importSingleNotepad e (Some d) choice w) = alerts w @ [msg_import_failed])"
proof -
  have shape: "(isBackup d = Inr True) =
     (truthy d \<and> typeof_object d \<and> \<not> truthy (get d ''notes'') \<and>
      (\<exists>pre v post. map snd (spread d) = pre @ v # post \<and> truthy (get v ''notes'') \<and>
                     list_all non_nullish pre))"
    using some_notes_True [of "map snd (spread d)"] some_notes_found
    by (auto simp: isBackup_def)
  have rejected: "isBackup d = Inr True \<longrightarrow>
      importSingleNotepad e (Some d) choice w =
        w\<lparr>alerts := alerts w @ [msg_is_backup], isProcessing := False\<rparr>"
    by (simp add: importSingleNotepad_def setIsProcessing_def alert_def)
  have others: "isBackup d \<noteq> Inr True \<longrightarrow>
      alerts (importSingleNotepad e (Some d) choice w) = alerts w \<or>
      alerts (importSingleNotepad e (Some d) choice w) = alerts w @ [msg_import_failed]"
    by (auto simp: importSingleNotepad_def imported_notepad_def import_failed_def saveToDatabase_def
        setIsProcessing_def alert_def Let_def
        split: sum.splits bool.splits option.splits resolution.splits)
  show ?thesis using shape rejected others by blast
qed

theorem import_rejects_backup_shape_witness:
  "isBackup payload_ab = Inr True \<and>
   importSingleNotepad browser (Some payload_ab) (Some Replace) world1 =
     world1\<lparr>alerts := [msg_is_backup]\<rparr> \<and>
   isBackup payload_x = Inr True \<and>
   isBackup payload_old = Inr False \<and>
   alerts (importSingleNotepad browser (Some payload_old) (Some Cancel) world1) = alerts world1"
proof -
  have a: "isBackup payload_ab = Inr True"
    by (simp add: isBackup_def payload_ab_def get_own_def)
  have x: "isBackup payload_x = Inr True"
    by (simp add: isBackup_def payload_x_def get_own_def)
  have o: "isBackup payload_old = Inr False"
    by (simp add: isBackup_def payload_old_def get_own_def)
  have c: "alerts (importSingleNotepad browser (Some payload_old) (Some Cancel) world1) =
           alerts world1"
    by (simp add: importSingleNotepad_def imported_notepad_def isBackup_def payload_old_def
        note_plain_def get_own_def
        hydrateNotes_def hydrate_note_def set_prop_def getAll_def lookup_truthy_def
        setIsProcessing_def world1_def world0_def browser_def Let_def)
  from import_rejects_backup_shape [of payload_ab browser "Some Replace" world1] a x o c
  show ?thesis by (simp add: world1_def world0_def)
qed

subsection \<open>Collisions\<close>

lemma getAll_step_keeps:
  "map_of (fst acc) key \<noteq> None \<Longrightarrow>
   map_of (fst (fold (\<lambda>item (m, p).
             let k = to_property_key e (get_own item ''id'')
             in if k = ''__proto__'' then (m, Some item) else (AList.update k item m, p))
          items acc)) key \<noteq> None"
proof (induction items arbitrary: acc)
  case Nil
  then show ?case by simp
next
  case (Cons a items)
  obtain m p where acc: "acc = (m, p)" by (cases acc)
  have m: "map_of m key \<noteq> None" using Cons.prems acc by simp
  show ?case
  proof (cases "to_property_key e (get_own a ''id'') = ''__proto__''")
    case True
    have "map_of (fst (m, Some a)) key \<noteq> None" using m by simp
    from Cons.IH [OF this] show ?thesis using True acc by (simp add: Let_def)
  next
    case False
    have "map_of (fst (AList.update (to_property_key e (get_own a ''id'')) a m, p)) key \<noteq> None"
      using m by (simp add: update_conv')
    from Cons.IH [OF this] show ?thesis using False acc by (simp add: Let_def)
  qed
qed

lemma getAll_step_adds:
  "item \<in> set items \<Longrightarrow> to_property_key e (get_own item ''id'') = key \<Longrightarrow>
   key \<noteq> ''__proto__'' \<Longrightarrow>
   map_of (fst (fold (\<lambda>item (m, p).
             let k = to_property_key e (get_own item ''id'')
             in if k = ''__proto__'' then (m, Some item) else (AList.update k item m, p))
          items acc)) key \<noteq> None"
proof (induction items arbitrary: acc)
  case Nil
  then show ?case by simp
next
  case (Cons a items)
  obtain m p where acc: "acc = (m, p)" by (cases acc)
  show ?case
  proof (cases "a = item")
    case True
    have "map_of (fst (AList.update key item m, p)) key \<noteq> None"
      by (simp add: update_conv')
    from getAll_step_keeps [OF this, of e items] show ?thesis
      using True Cons.prems acc by (simp add: Let_def)
  next
    case False
    then have "item \<in> set items" using Cons.prems by simp
    from Cons.IH [OF this Cons.prems(2) Cons.prems(3)] show ?thesis
      using acc by (simp add: Let_def split: if_splits)
  qed
qed

text \<open>
  A record of the store with the id of the imported notepad is a collision, under
  whatever key the store holds it.
\<close>

lemma stored_id_is_duplicate:
  assumes "map_of lib k = Some existing"
    and "to_property_key e (get_own existing ''id'') = key"
    and "key \<noteq> ''__proto__''"
  shows "lookup_truthy (getAll e lib) key"
proof -
  have "existing \<in> set (map snd lib)"
    using assms(1) by (force dest: map_of_SomeD)
  from getAll_step_adds [OF this assms(2) assms(3)]
  have "map_of (fst (getAll e lib)) key \<noteq> None"
    by (simp add: getAll_def)
  then show ?thesis by (auto simp: lookup_truthy_def)
qed

text \<open>
  An id that is a number gives the key that JavaScript prints for it: digits below
  \<open>10\<^sup>2\<^sup>1\<close>, an exponent from there on.
\<close>

lemma number_id_key:
  "to_property_key e (JNum 42) = ''42'' \<and>
   to_property_key browser (JNum 1000000000000000000000) = ''1e+21'' \<and>
   library (saveToDatabase browser [(''id'', JNum 1000000000000000000000)] world0) =
     [(''1e+21'', [(''id'', JNum 1000000000000000000000)])]"
  by (simp add: saveToDatabase_def bulkPut_def get_own_def world0_def browser_def
      exponent_digits_def show_int_def show_nat.simps digit_def Let_def)

lemma bulkPut_single: "map_of (bulkPut [(k, v)] lib) = (map_of lib)(k \<mapsto> v)"
  by (simp add: bulkPut_def update_conv')

text \<open>
  C8, as the specification states it, fails on the code in both of its first two parts.
  The id of "keep both" comes from the clock and the random source alone: where it is the
  id of the entry in the library, the notepad is written over this entry, and the library
  has one entry afterwards, not two. And "replace" writes under the id of the notepad: a
  restore stores a record under the key that it has in the backup file, which need not be
  its id, and then "replace" leaves this record as it was and adds a second one.
\<close>

theorem import_collision_counterexample:
  "generateID_at browser ''notepad'' NotepadId = ''notepad-1700-k3j9x0q1z'' \<and>
   get payload_generated ''id'' = JStr ''notepad-1700-k3j9x0q1z'' \<and>
   library world_generated = [(''notepad-1700-k3j9x0q1z'', generated_entry)] \<and>
   library (importSingleNotepad browser (Some payload_generated) (Some KeepBoth) world_generated) =
     [(''notepad-1700-k3j9x0q1z'', imported_generated)] \<and>
   imported_generated \<noteq> generated_entry \<and>
   library (restoreFullLibrary browser True (Some (Some backup_misfiled)) world0) =
     library world_misfiled \<and>
   library world_misfiled = [(''k1'', old_entry)] \<and>
   get_own old_entry ''id'' = get payload_old ''id'' \<and>
   library (importSingleNotepad browser (Some payload_old) (Some Replace) world_misfiled) =
     [(''k1'', old_entry), (''old'', imported_old)]"
proof -
  have g: "generateID_at browser ''notepad'' NotepadId = ''notepad-1700-k3j9x0q1z''"
    by (simp add: generateID_at_def generateID_def show_int_def show_nat.simps digit_def
        browser_def)
  have i: "get payload_generated ''id'' = JStr ''notepad-1700-k3j9x0q1z''"
    by (simp add: payload_generated_def get_own_def)
  have l: "library world_generated = [(''notepad-1700-k3j9x0q1z'', generated_entry)]"
    by (simp add: world_generated_def world0_def)
  have kb: "library (importSingleNotepad browser (Some payload_generated) (Some KeepBoth)
                       world_generated) = [(''notepad-1700-k3j9x0q1z'', imported_generated)]"
    by (simp add: importSingleNotepad_def imported_notepad_def isBackup_def hydrateNotes_def
        hydrate_note_def note_plain_def generateID_at_def generateID_def show_int_def
        show_nat.simps digit_def payload_generated_def imported_generated_def
        generated_entry_def get_own_def set_prop_def getAll_def lookup_truthy_def
        saveToDatabase_def bulkPut_def setIsProcessing_def world_generated_def world0_def
        browser_def Let_def)
  have ne: "imported_generated \<noteq> generated_entry"
    by (simp add: imported_generated_def generated_entry_def)
  have r: "library (restoreFullLibrary browser True (Some (Some backup_misfiled)) world0) =
           library world_misfiled"
    by (simp add: restoreFullLibrary_def dataFallbackMode_def restore_callback_def
        validatedData_of_def validate_backup_def validated_notepad_def keeps_def assign_def
        isSingleNotepad_def isBackupCollection_def elements_def js_or_def bulkPut_def
        backup_misfiled_def world_misfiled_def old_entry_def get_own_def set_prop_def
        setIsProcessing_def alert_def world0_def browser_def Let_def)
  have m: "library world_misfiled = [(''k1'', old_entry)]"
    by (simp add: world_misfiled_def world0_def)
  have o: "get_own old_entry ''id'' = get payload_old ''id''"
    by (simp add: old_entry_def payload_old_def get_own_def)
  have rp: "library (importSingleNotepad browser (Some payload_old) (Some Replace)
                       world_misfiled) = [(''k1'', old_entry), (''old'', imported_old)]"
    by (simp add: importSingleNotepad_def imported_notepad_def isBackup_def hydrateNotes_def
        hydrate_note_def note_plain_def payload_old_def imported_old_def old_entry_def
        get_own_def set_prop_def getAll_def lookup_truthy_def saveToDatabase_def bulkPut_def
        setIsProcessing_def world_misfiled_def world0_def browser_def Let_def)
  show ?thesis using g i l kb ne r m o rp by simp
qed

text \<open>
  C8, amended. The file holds a single notepad whose notes hydrate, the database can be
  opened, and the library has, under some key, an entry with the id of the notepad. With
  "keep both" the import writes one entry, under an id generated from the clock and the
  random source without a look at the library: it is the imported notepad with this id
  and with the same notes and other fields, and every entry under another key stays as it
  was, so that the library has both entries exactly when the generated id is not the key
  of the entry that was there. With "replace" the import writes the imported notepad
  under its own id, over the entry under this key if there is one, and leaves every entry
  under another key as it was: the entry that was there is replaced exactly when the
  library holds it under its id. With "cancel", or when the dialog is dismissed, the
  library is as it was. In each case the only calls on the database are the read and at
  most one write, so one resolution at most is carried out.
\<close>

theorem import_collision_resolutions:
  assumes "\<not> storage_unavailable e"
    and "isBackup d = Inr False"
    and "truthy (get d ''notes'')"
    and "hydrateNotes (get d ''notes'') (base64ToBlob e) = Inr hn"
    and "key = to_property_key e (get d ''id'')"
    and "key \<noteq> ''__proto__''"
    and "map_of (library w) k = Some existing"
    and "to_property_key e (get_own existing ''id'') = key"
    and "fresh = generateID_at e ''notepad'' NotepadId"
    and "notepad = imported_notepad d hn"
    and "copy = set_prop ''id'' (JStr fresh) notepad"
  shows "map_of (library (importSingleNotepad e (Some d) (Some KeepBoth) w)) =
           (map_of (library w))(fresh \<mapsto> copy) \<and>
         map_of (library (importSingleNotepad e (Some d) (Some KeepBoth) w)) k =
           (if fresh = k then Some copy else Some existing) \<and>
         get_own copy ''id'' = JStr fresh \<and> get_own copy ''notes'' = hn \<and>
         (\<forall>j. j \<noteq> ''id'' \<longrightarrow> get_own copy j = get_own notepad j) \<and>
         db_calls (importSingleNotepad e (Some d) (Some KeepBoth) w) =
           db_calls w @ [DbGetAll, DbBulkPut [(fresh, copy)]] \<and>
         map_of (library (importSingleNotepad e (Some d) (Some Replace) w)) =
           (map_of (library w))(key \<mapsto> notepad) \<and>
         map_of (library (importSingleNotepad e (Some d) (Some Replace) w)) k =
           (if key = k then Some notepad else Some existing) \<and>
         get_own notepad ''id'' = get d ''id'' \<and> get_own notepad ''notes'' = hn \<and>
         db_calls (importSingleNotepad e (Some d) (Some Replace) w) =
           db_calls w @ [DbGetAll, DbBulkPut [(key, notepad)]] \<and>
         library (importSingleNotepad e (Some d) (Some Cancel) w) = library w \<and>
         db_calls (importSingleNotepad e (Some d) (Some Cancel) w) = db_calls w @ [DbGetAll] \<and>
         library (importSingleNotepad e (Some d) None w) = library w \<and>
         db_calls (importSingleNotepad e (Some d) None w) = db_calls w @ [DbGetAll]"
proof -
  obtain fs where d: "d = JObj fs"
    using assms(3) by (cases d) simp_all
  have np: "notepad = set_prop ''notes'' hn fs"
    using assms(10) d by (simp add: imported_notepad_def)
  have np_id: "get_own notepad ''id'' = get d ''id''"
    using np d by (simp add: get_set_prop)
  have np_notes: "get_own notepad ''notes'' = hn"
    using np by (simp add: get_set_prop)
  have dup: "lookup_truthy (getAll e (library w)) (to_property_key e (get_own notepad ''id''))"
    using stored_id_is_duplicate [OF assms(7) assms(8) assms(6)] np_id assms(5) by simp
  have td: "truthy d" using d by simp
  have run: "importSingleNotepad e (Some d) choice w =
      (let w2 = (setIsProcessing True w)\<lparr>db_calls := db_calls w @ [DbGetAll],
                                          isProcessing := False\<rparr>
       in case choice of
            Some KeepBoth \<Rightarrow> saveToDatabase e copy w2
          | Some Replace \<Rightarrow> saveToDatabase e notepad w2
          | Some Cancel \<Rightarrow> setIsProcessing False w2
          | None \<Rightarrow> w2)" for choice
    using assms(1) assms(2) assms(3) assms(4) td dup assms(10) assms(9) assms(11)
    by (simp add: importSingleNotepad_def setIsProcessing_def Let_def
        split: option.splits resolution.splits)
  have copy_key: "to_property_key e (get_own copy ''id'') = fresh"
    using assms(11) by (simp add: get_set_prop)
  have k1: "map_of (library (importSingleNotepad e (Some d) (Some KeepBoth) w)) =
           (map_of (library w))(fresh \<mapsto> copy)"
    using copy_key by (simp add: run saveToDatabase_def setIsProcessing_def bulkPut_single Let_def)
  have k2: "map_of (library (importSingleNotepad e (Some d) (Some KeepBoth) w)) k =
           (if fresh = k then Some copy else Some existing)"
    using k1 assms(7) by simp
  have k3: "get_own copy ''id'' = JStr fresh \<and> get_own copy ''notes'' = hn \<and>
         (\<forall>j. j \<noteq> ''id'' \<longrightarrow> get_own copy j = get_own notepad j)"
    using assms(11) np_notes by (simp add: get_set_prop)
  have k4: "db_calls (importSingleNotepad e (Some d) (Some KeepBoth) w) =
           db_calls w @ [DbGetAll, DbBulkPut [(fresh, copy)]]"
    using copy_key by (simp add: run saveToDatabase_def setIsProcessing_def Let_def)
  have np_key: "to_property_key e (get_own notepad ''id'') = key"
    using np_id assms(5) by simp
  have r1: "map_of (library (importSingleNotepad e (Some d) (Some Replace) w)) =
           (map_of (library w))(key \<mapsto> notepad)"
    using np_key by (simp add: run saveToDatabase_def setIsProcessing_def bulkPut_single Let_def)
  have r2: "map_of (library (importSingleNotepad e (Some d) (Some Replace) w)) k =
           (if key = k then Some notepad else Some existing)"
    using r1 assms(7) by simp
  have r3: "db_calls (importSingleNotepad e (Some d) (Some Replace) w) =
           db_calls w @ [DbGetAll, DbBulkPut [(key, notepad)]]"
    using np_key by (simp add: run saveToDatabase_def setIsProcessing_def Let_def)
  have c1: "library (importSingleNotepad e (Some d) (Some Cancel) w) = library w \<and>
         db_calls (importSingleNotepad e (Some d) (Some Cancel) w) = db_calls w @ [DbGetAll] \<and>
         library (importSingleNotepad e (Some d) None w) = library w \<and>
         db_calls (importSingleNotepad e (Some d) None w) = db_calls w @ [DbGetAll]"
    by (simp add: run setIsProcessing_def Let_def)
  show ?thesis
    using k1 k2 k3 k4 r1 r2 np_id np_notes r3 c1 by blast
qed

theorem import_collision_resolutions_witness:
  "storage_unavailable browser = False \<and>
   isBackup payload_old = Inr False \<and>
   truthy (get payload_old ''notes'') \<and>
   to_property_key browser (get payload_old ''id'') = ''old'' \<and>
   to_property_key browser (get_own old_entry ''id'') = ''old'' \<and>
   hydrateNotes (get payload_old ''notes'') (base64ToBlob browser) = Inr (JArr [note_plain]) \<and>
   map_of (library world1) ''old'' = Some old_entry \<and>
   map_of (library world_misfiled) ''k1'' = Some old_entry \<and>
   generateID_at browser ''notepad'' NotepadId = ''notepad-1700-k3j9x0q1z'' \<and>
   library (importSingleNotepad browser (Some payload_old) (Some KeepBoth) world1) =
     [(''old'', old_entry),
      (''notepad-1700-k3j9x0q1z'',
         [(''id'', JStr ''notepad-1700-k3j9x0q1z''), (''title'', JStr ''Imported''),
          (''created'', JNum 3), (''lastUpdate'', JNum 4), (''notes'', JArr [note_plain])])] \<and>
   library (importSingleNotepad browser (Some payload_old) (Some Replace) world1) =
     [(''old'', imported_old)] \<and>
   library (importSingleNotepad browser (Some payload_old) (Some Cancel) world1) =
     [(''old'', old_entry)] \<and>
   map_of (library (importSingleNotepad browser (Some payload_old) (Some Replace) world_misfiled))
     ''k1'' = Some old_entry"
proof -
  have b: "isBackup payload_old = Inr False"
    by (simp add: isBackup_def payload_old_def get_own_def)
  have t: "truthy (get payload_old ''notes'')"
    by (simp add: payload_old_def get_own_def)
  have h: "hydrateNotes (get payload_old ''notes'') (base64ToBlob browser) = Inr (JArr [note_plain])"
    by (simp add: payload_old_def get_own_def hydrateNotes_def hydrate_note_def note_plain_def)
  have k: "''old'' = to_property_key browser (get payload_old ''id'')"
    by (simp add: payload_old_def get_own_def)
  have s: "\<not> storage_unavailable browser" by (simp add: browser_def)
  have m: "map_of (library world1) ''old'' = Some old_entry"
    by (simp add: world1_def world0_def old_entry_def)
  have m': "map_of (library world_misfiled) ''k1'' = Some old_entry"
    by (simp add: world_misfiled_def world0_def)
  have i: "to_property_key browser (get_own old_entry ''id'') = ''old''"
    by (simp add: old_entry_def get_own_def)
  have g: "generateID_at browser ''notepad'' NotepadId = ''notepad-1700-k3j9x0q1z''"
    by (simp add: generateID_at_def generateID_def show_int_def show_nat.simps digit_def
        browser_def)
  have kb: "library (importSingleNotepad browser (Some payload_old) (Some KeepBoth) world1) =
     [(''old'', old_entry),
      (''notepad-1700-k3j9x0q1z'',
         [(''id'', JStr ''notepad-1700-k3j9x0q1z''), (''title'', JStr ''Imported''),
          (''created'', JNum 3), (''lastUpdate'', JNum 4), (''notes'', JArr [note_plain])])]"
    by (simp add: importSingleNotepad_def imported_notepad_def isBackup_def hydrateNotes_def
        hydrate_note_def
        note_plain_def generateID_at_def generateID_def show_int_def show_nat.simps digit_def
        payload_old_def get_own_def set_prop_def
        getAll_def lookup_truthy_def saveToDatabase_def bulkPut_def setIsProcessing_def
        world1_def world0_def old_entry_def browser_def Let_def)
  have rp: "library (importSingleNotepad browser (Some payload_old) (Some Replace) world1) =
     [(''old'', imported_old)]"
    by (simp add: importSingleNotepad_def imported_notepad_def isBackup_def hydrateNotes_def
        hydrate_note_def
        note_plain_def payload_old_def imported_old_def get_own_def set_prop_def
        getAll_def lookup_truthy_def saveToDatabase_def bulkPut_def setIsProcessing_def
        world1_def world0_def old_entry_def browser_def Let_def)
  have cn: "library (importSingleNotepad browser (Some payload_old) (Some Cancel) world1) =
     [(''old'', old_entry)]"
    using import_collision_resolutions [OF s b t h k _ m i refl refl refl]
    by (simp add: world1_def world0_def old_entry_def)
  have mf: "map_of (library (importSingleNotepad browser (Some payload_old) (Some Replace)
                      world_misfiled)) ''k1'' = Some old_entry"
    using import_collision_resolutions [OF s b t h k _ m' i refl refl refl] m'
    by simp
  show ?thesis using s b t k [symmetric] i h m m' g kb rp cn mf by simp
qed

end
